theory Spec2Isabelle
  imports Complex_Main "HOL-Library.Word"
begin

unbundle bit_operations_syntax

section \<open>Machine types\<close>

type_synonym u8 = "8 word"
type_synonym u16 = "16 word"
type_synonym u64 = "64 word"

subsection \<open>Single-precision floating point\<close>

text \<open>
  The driver computes frequencies in C \<^verbatim>\<open>float\<close>. A finite \<^verbatim>\<open>float\<close> is modelled by the
  rational number it denotes, and every arithmetic operation rounds its exact result to
  the nearest IEEE 754 binary32 value, ties to even (24 significant bits, the smallest
  spacing \<open>2 ^ -149\<close>, the largest \<open>2 ^ 104\<close>). NaN, the infinities and the sign of zero are
  not represented; a result of magnitude \<open>2 ^ 128\<close> or more is outside the model.
\<close>

type_synonym float = rat

text \<open>
  \<open>quantum_search n q x\<close> doubles the spacing \<open>q\<close> (at most \<open>n\<close> times) until \<open>x\<close> has at
  most 24 significant bits in units of \<open>q\<close>.
\<close>

fun quantum_search :: "nat \<Rightarrow> rat \<Rightarrow> rat \<Rightarrow> rat" where
  "quantum_search 0 q x = q"
| "quantum_search (Suc n) q x = (if x < 16777216 * q then q else quantum_search n (2 * q) x)"

definition quantum :: "rat \<Rightarrow> rat" where
  "quantum x = quantum_search 253 (1 / 2 ^ 149) \<bar>x\<bar>"

definition round_half_even :: "rat \<Rightarrow> int" where
  "round_half_even y =
     (let n = \<lfloor>y\<rfloor>; d = y - of_int n
      in if d < 1 / 2 then n
         else if 1 / 2 < d then n + 1
         else if even n then n else n + 1)"

definition rnd32 :: "rat \<Rightarrow> float" where
  "rnd32 x = of_int (round_half_even (x / quantum x)) * quantum x"

definition fadd :: "float \<Rightarrow> float \<Rightarrow> float" where
  "fadd a b = rnd32 (a + b)"

definition fsub :: "float \<Rightarrow> float \<Rightarrow> float" where
  "fsub a b = rnd32 (a - b)"

definition fmul :: "float \<Rightarrow> float \<Rightarrow> float" where
  "fmul a b = rnd32 (a * b)"

definition fdiv :: "float \<Rightarrow> float \<Rightarrow> float" where
  "fdiv a b = rnd32 (a / b)"

text \<open>\<^verbatim>\<open>roundf\<close>: to the nearest integer, halfway cases away from zero; the result is exact.\<close>

definition roundf :: "float \<Rightarrow> float" where
  "roundf x = (if 0 \<le> x then of_int \<lfloor>x + 1 / 2\<rfloor> else - of_int \<lfloor>- x + 1 / 2\<rfloor>)"

text \<open>
  The conversion \<^verbatim>\<open>(uint16_t)x\<close> of a \<^verbatim>\<open>float\<close> truncates towards zero; C leaves it undefined
  when the truncated value does not fit, which is \<open>None\<close> here. The conversion of a
  \<^verbatim>\<open>uint16_t\<close> to \<^verbatim>\<open>float\<close> is exact.
\<close>

definition float_to_u16 :: "float \<Rightarrow> u16 option" where
  "float_to_u16 x =
     (let t = (if 0 \<le> x then \<lfloor>x\<rfloor> else - \<lfloor>- x\<rfloor>)
      in if 0 \<le> t \<and> t \<le> 65535 then Some (word_of_int t) else None)"

definition u16_to_float :: "u16 \<Rightarrow> float" where
  "u16_to_float c = of_nat (unat c)"

section \<open>Register map (fm\_si470x\_regs.h)\<close>

abbreviation (input) SI4703_ADDR :: nat where "SI4703_ADDR \<equiv> 0x10"

abbreviation (input) DEVICEID :: nat where "DEVICEID \<equiv> 0x0"
abbreviation (input) CHIPID :: nat where "CHIPID \<equiv> 0x1"
abbreviation (input) POWERCFG :: nat where "POWERCFG \<equiv> 0x2"
abbreviation (input) CHANNEL :: nat where "CHANNEL \<equiv> 0x3"
abbreviation (input) SYSCONFIG1 :: nat where "SYSCONFIG1 \<equiv> 0x4"
abbreviation (input) SYSCONFIG2 :: nat where "SYSCONFIG2 \<equiv> 0x5"
abbreviation (input) SYSCONFIG3 :: nat where "SYSCONFIG3 \<equiv> 0x6"
abbreviation (input) TEST1 :: nat where "TEST1 \<equiv> 0x7"
abbreviation (input) TEST2 :: nat where "TEST2 \<equiv> 0x8"
abbreviation (input) BOOTCONFIG :: nat where "BOOTCONFIG \<equiv> 0x9"
abbreviation (input) STATUSRSSI :: nat where "STATUSRSSI \<equiv> 0xA"
abbreviation (input) READCHAN :: nat where "READCHAN \<equiv> 0xB"
abbreviation (input) RDSA :: nat where "RDSA \<equiv> 0xC"
abbreviation (input) RDSB :: nat where "RDSB \<equiv> 0xD"
abbreviation (input) RDSC :: nat where "RDSC \<equiv> 0xE"
abbreviation (input) RDSD :: nat where "RDSD \<equiv> 0xF"

text \<open>Register 0x00 - DEVICEID\<close>

definition MFGID_LSB :: nat where "MFGID_LSB = 0"
definition MFGID_BITS :: u16 where "MFGID_BITS = push_bit MFGID_LSB 0xFFF"
definition PN_LSB :: nat where "PN_LSB = 12"
definition PN_BITS :: u16 where "PN_BITS = push_bit PN_LSB 0xF"

text \<open>Register 0x01 - CHIPID\<close>

definition FIRMWARE_LSB :: nat where "FIRMWARE_LSB = 0"
definition FIRMWARE_BITS :: u16 where "FIRMWARE_BITS = push_bit FIRMWARE_LSB 0x3F"
definition DEV_LSB :: nat where "DEV_LSB = 6"
definition DEV_BITS :: u16 where "DEV_BITS = push_bit DEV_LSB 0xF"
definition REV_LSB :: nat where "REV_LSB = 10"
definition REV_BITS :: u16 where "REV_BITS = push_bit REV_LSB 0x3F"

text \<open>Register 0x02 - POWERCFG\<close>

definition ENABLE_BIT :: u16 where "ENABLE_BIT = push_bit 0 1"
definition DISABLE_BIT :: u16 where "DISABLE_BIT = push_bit 6 1"
definition SEEK_BIT :: u16 where "SEEK_BIT = push_bit 8 1"
definition SEEKUP_BIT :: u16 where "SEEKUP_BIT = push_bit 9 1"
definition SKMODE_BIT :: u16 where "SKMODE_BIT = push_bit 10 1"
definition RDSM_BIT :: u16 where "RDSM_BIT = push_bit 11 1"
definition MONO_BIT :: u16 where "MONO_BIT = push_bit 13 1"
definition DMUTE_BIT :: u16 where "DMUTE_BIT = push_bit 14 1"
definition DSMUTE_BIT :: u16 where "DSMUTE_BIT = push_bit 15 1"

text \<open>Register 0x03 - CHANNEL\<close>

definition TUNE_BIT :: u16 where "TUNE_BIT = push_bit 15 1"
definition CHAN_LSB :: nat where "CHAN_LSB = 0"
definition CHAN_BITS :: u16 where "CHAN_BITS = push_bit CHAN_LSB 0x3FF"

text \<open>Register 0x04 - SYSCONFIG1\<close>

definition DE_BIT :: u16 where "DE_BIT = push_bit 11 1"
definition RDS_BIT :: u16 where "RDS_BIT = push_bit 12 1"

text \<open>Register 0x05 - SYSCONFIG2\<close>

definition VOLUME_LSB :: nat where "VOLUME_LSB = 0"
definition VOLUME_BITS :: u16 where "VOLUME_BITS = push_bit VOLUME_LSB 0xF"
definition SPACE_LSB :: nat where "SPACE_LSB = 4"
definition SPACE_BITS :: u16 where "SPACE_BITS = push_bit SPACE_LSB 0x3"
definition BAND_LSB :: nat where "BAND_LSB = 6"
definition BAND_BITS :: u16 where "BAND_BITS = push_bit BAND_LSB 0x3"
definition SEEKTH_LSB :: nat where "SEEKTH_LSB = 8"
definition SEEKTH_BITS :: u16 where "SEEKTH_BITS = push_bit SEEKTH_LSB 0xFF"

text \<open>Register 0x06 - SYSCONFIG3\<close>

definition SKCNT_LSB :: nat where "SKCNT_LSB = 0"
definition SKCNT_BITS :: u16 where "SKCNT_BITS = push_bit SKCNT_LSB 0xF"
definition SKSNR_LSB :: nat where "SKSNR_LSB = 4"
definition SKSNR_BITS :: u16 where "SKSNR_BITS = push_bit SKSNR_LSB 0xF"
definition VOLEXT_BIT :: u16 where "VOLEXT_BIT = push_bit 8 1"
definition SMUTEA_LSB :: nat where "SMUTEA_LSB = 12"
definition SMUTEA_BITS :: u16 where "SMUTEA_BITS = push_bit SMUTEA_LSB 0x3"
definition SMUTER_LSB :: nat where "SMUTER_LSB = 14"
definition SMUTER_BITS :: u16 where "SMUTER_BITS = push_bit SMUTER_LSB 0x3"

text \<open>Register 0x07 - TEST1\<close>

definition XOSCEN_BIT :: u16 where "XOSCEN_BIT = push_bit 15 1"

text \<open>Register 0x0A - STATUSRSSI\<close>

definition RSSI_LSB :: nat where "RSSI_LSB = 0"
definition RSSI_BITS :: u16 where "RSSI_BITS = push_bit RSSI_LSB 0xFF"
definition ST_BIT :: u16 where "ST_BIT = push_bit 8 1"
definition SFBL_BIT :: u16 where "SFBL_BIT = push_bit 13 1"
definition STC_BIT :: u16 where "STC_BIT = push_bit 14 1"
definition RDSR_BIT :: u16 where "RDSR_BIT = push_bit 15 1"

text \<open>Register 0x0B - READCHAN\<close>

definition READCHAN_LSB :: nat where "READCHAN_LSB = 0"
definition READCHAN_BITS :: u16 where "READCHAN_BITS = push_bit READCHAN_LSB 0x3FF"

definition DEV_SI4702 :: u8 where "DEV_SI4702 = 1"
definition DEV_SI4703 :: u8 where "DEV_SI4703 = 9"

definition TUNE_POLL_INTERVAL_MS :: nat where "TUNE_POLL_INTERVAL_MS = 20"
definition SEEK_POLL_INTERVAL_MS :: nat where "SEEK_POLL_INTERVAL_MS = 200"

subsection \<open>The bit-field macros\<close>

text \<open>
  \<^verbatim>\<open>fm_set_bit(reg, bit, value)\<close>, \<^verbatim>\<open>fm_get_bit(reg, bit)\<close>, \<^verbatim>\<open>fm_set_bits(reg, bits, value)\<close>
  and \<^verbatim>\<open>fm_get_bits(reg, bits)\<close>, with the mask (and the shift) the macro pastes
  together passed as arguments. \<^verbatim>\<open>fm_set_bits\<close> clears the field and ORs the shifted
  value in without masking it.
\<close>

definition fm_set_bit :: "u16 \<Rightarrow> u16 \<Rightarrow> bool \<Rightarrow> u16" where
  "fm_set_bit reg b v = (if v then reg OR b else reg AND NOT b)"

definition fm_get_bit :: "u16 \<Rightarrow> u16 \<Rightarrow> bool" where
  "fm_get_bit reg b = (reg AND b \<noteq> 0)"

definition fm_set_bits :: "u16 \<Rightarrow> u16 \<Rightarrow> nat \<Rightarrow> u16 \<Rightarrow> u16" where
  "fm_set_bits reg bits lsb v = (reg AND NOT bits) OR push_bit lsb v"

definition fm_get_bits :: "u16 \<Rightarrow> u16 \<Rightarrow> nat \<Rightarrow> u16" where
  "fm_get_bits reg bits lsb = drop_bit lsb (reg AND bits)"

section \<open>Data model (fm\_si470x.h)\<close>

definition FM_MAX_VOLUME :: u8 where "FM_MAX_VOLUME = 15"

datatype fm_band_t = FM_BAND_COMMON | FM_BAND_JAPAN_WIDE | FM_BAND_JAPAN

datatype fm_channel_spacing_t =
  FM_CHANNEL_SPACING_200 | FM_CHANNEL_SPACING_100 | FM_CHANNEL_SPACING_50

datatype fm_deemphasis_t = FM_DEEMPHASIS_75 | FM_DEEMPHASIS_50

record fm_config_t =
  band :: fm_band_t
  channel_spacing :: fm_channel_spacing_t
  deemphasis :: fm_deemphasis_t

record fm_frequency_range_t =
  bottom :: float
  top_r :: float
  spacing :: float

datatype fm_seek_sensitivity_t =
    FM_SEEK_SENSITIVITY_STRONG_ONLY
  | FM_SEEK_SENSITIVITY_RECOMMENDED
  | FM_SEEK_SENSITIVITY_MORE
  | FM_SEEK_SENSITIVITY_MOST

datatype fm_seek_direction_t = FM_SEEK_DOWN | FM_SEEK_UP

datatype fm_softmute_attenuation_t =
    FM_SOFTMUTE_ATTENUATION_16
  | FM_SOFTMUTE_ATTENUATION_14
  | FM_SOFTMUTE_ATTENUATION_12
  | FM_SOFTMUTE_ATTENUATION_10

datatype fm_softmute_rate_t =
  FM_SOFTMUTE_FASTEST | FM_SOFTMUTE_FAST | FM_SOFTMUTE_SLOW | FM_SOFTMUTE_SLOWEST

text \<open>The enumerators' integer values, as they are shifted into the registers.\<close>

fun band_val :: "fm_band_t \<Rightarrow> u16" where
  "band_val FM_BAND_COMMON = 0"
| "band_val FM_BAND_JAPAN_WIDE = 1"
| "band_val FM_BAND_JAPAN = 2"

fun channel_spacing_val :: "fm_channel_spacing_t \<Rightarrow> u16" where
  "channel_spacing_val FM_CHANNEL_SPACING_200 = 0"
| "channel_spacing_val FM_CHANNEL_SPACING_100 = 1"
| "channel_spacing_val FM_CHANNEL_SPACING_50 = 2"

fun softmute_attenuation_val :: "fm_softmute_attenuation_t \<Rightarrow> u16" where
  "softmute_attenuation_val FM_SOFTMUTE_ATTENUATION_16 = 0"
| "softmute_attenuation_val FM_SOFTMUTE_ATTENUATION_14 = 1"
| "softmute_attenuation_val FM_SOFTMUTE_ATTENUATION_12 = 2"
| "softmute_attenuation_val FM_SOFTMUTE_ATTENUATION_10 = 3"

fun softmute_rate_val :: "fm_softmute_rate_t \<Rightarrow> u16" where
  "softmute_rate_val FM_SOFTMUTE_FASTEST = 0"
| "softmute_rate_val FM_SOFTMUTE_FAST = 1"
| "softmute_rate_val FM_SOFTMUTE_SLOW = 2"
| "softmute_rate_val FM_SOFTMUTE_SLOWEST = 3"

text \<open>
  \<^verbatim>\<open>fm_async_progress_t\<close>; the field \<^verbatim>\<open>done\<close> is \<open>is_done\<close> here.
\<close>

record fm_async_progress_t =
  is_done :: bool
  result :: int

text \<open>
  The task slot holds a pointer to one of the two task routines, or \<^verbatim>\<open>NULL\<close> (\<open>None\<close>).
\<close>

datatype fm_async_task_t = Set_frequency_async_task | Seek_async_task

record fm_async_state_t =
  task :: "fm_async_task_t option"
  state :: u8
  resume_time :: u64

record si470x_t =
  i2c_inst :: nat
  reset_pin :: u8
  sdio_pin :: u8
  sclk_pin :: u8
  enable_pull_ups :: bool
  config :: fm_config_t
  seek_sensitivity :: fm_seek_sensitivity_t
  frequency :: float
  mute :: bool
  softmute :: bool
  softmute_rate :: fm_softmute_rate_t
  softmute_attenuation :: fm_softmute_attenuation_t
  mono :: bool
  volext :: bool
  volume :: u8
  regs :: "nat \<Rightarrow> u16"
  async :: fm_async_state_t

text \<open>The empty slot, \<^verbatim>\<open>(fm_async_state_t){}\<close>.\<close>

definition async_empty :: fm_async_state_t where
  "async_empty = \<lparr>task = None, state = 0, resume_time = 0\<rparr>"

section \<open>The environment: bus, pins, clock\<close>

text \<open>
  The driver reaches the chip through the Pico SDK: \<^verbatim>\<open>i2c_read_blocking\<close>,
  \<^verbatim>\<open>i2c_write_blocking\<close>, the \<^verbatim>\<open>gpio_*\<close> setters, \<^verbatim>\<open>sleep_ms\<close> and \<^verbatim>\<open>time_us_64\<close>. Every call
  that acts on the outside is appended to the \<open>trace\<close>. What the outside answers is a
  function of the trace so far: the bytes a read transfers (\<open>i2c_reply\<close>, given the
  requested length; the call returns the number of bytes transferred, so a reply of any
  other length is a failed transfer), the value a write returns (\<open>i2c_ack\<close>) and the
  microsecond clock (\<open>clock\<close>).
\<close>

datatype gpio_function = GPIO_FUNC_I2C

datatype event =
    I2C_read nat nat
  | I2C_write nat "u8 list"
  | Sleep_ms nat
  | Gpio_init u8
  | Gpio_set_dir u8 bool
  | Gpio_put u8 bool
  | Gpio_set_function u8 gpio_function
  | Gpio_pull_up u8

record world =
  trace :: "event list"
  i2c_reply :: "event list \<Rightarrow> nat \<Rightarrow> u8 list"
  i2c_ack :: "event list \<Rightarrow> u8 list \<Rightarrow> int"
  clock :: "event list \<Rightarrow> u64"

definition emit :: "event \<Rightarrow> world \<Rightarrow> world" where
  "emit e w = w\<lparr>trace := trace w @ [e]\<rparr>"

definition i2c_read_blocking :: "world \<Rightarrow> nat \<Rightarrow> nat \<Rightarrow> int \<times> u8 list \<times> world" where
  "i2c_read_blocking w addr len =
     (let buf = i2c_reply w (trace w) len
      in (int (length buf), buf, emit (I2C_read addr len) w))"

definition i2c_write_blocking :: "world \<Rightarrow> nat \<Rightarrow> u8 list \<Rightarrow> int \<times> world" where
  "i2c_write_blocking w addr buf = (i2c_ack w (trace w) buf, emit (I2C_write addr buf) w)"

definition sleep_ms :: "nat \<Rightarrow> world \<Rightarrow> world" where
  "sleep_ms n w = emit (Sleep_ms n) w"

definition time_us_64 :: "world \<Rightarrow> u64" where
  "time_us_64 w = clock w (trace w)"

section \<open>Outcomes\<close>

text \<open>
  A call either returns, or stops the program: an \<^verbatim>\<open>assert\<close> that fails (the asserts are
  compiled in: \<^verbatim>\<open>NDEBUG\<close> is not defined), a \<^verbatim>\<open>panic\<close>, or a conversion C leaves
  undefined. \<open>Abort\<close> holds the handle and the world as they are at that moment. A
  function with a loop that may run forever returns an \<open>outcome option\<close>, \<open>None\<close> when
  it never returns.
\<close>

datatype error = Assertion_failed | Panic | Undefined_conversion

datatype 'a outcome = Abort error si470x_t world | Return 'a si470x_t world

definition and_then ::
  "'a outcome \<Rightarrow> ('a \<Rightarrow> si470x_t \<Rightarrow> world \<Rightarrow> 'b outcome) \<Rightarrow> 'b outcome" where
  "and_then m f = (case m of Abort e r w \<Rightarrow> Abort e r w | Return a r w \<Rightarrow> f a r w)"

definition and_then_opt ::
  "'a outcome option \<Rightarrow> ('a \<Rightarrow> si470x_t \<Rightarrow> world \<Rightarrow> 'b outcome option) \<Rightarrow> 'b outcome option" where
  "and_then_opt m f =
     (case m of None \<Rightarrow> None
      | Some (Abort e r w) \<Rightarrow> Some (Abort e r w)
      | Some (Return a r w) \<Rightarrow> f a r w)"

definition set_reg :: "nat \<Rightarrow> u16 \<Rightarrow> si470x_t \<Rightarrow> si470x_t" where
  "set_reg i v r = r\<lparr>regs := (regs r)(i := v)\<rparr>"

section \<open>The driver (fm\_si470x.c)\<close>

subsection \<open>Frequency ranges and channels\<close>

definition fm_frequency_range :: "fm_band_t \<Rightarrow> fm_channel_spacing_t \<Rightarrow> fm_frequency_range_t" where
  "fm_frequency_range b cs =
     \<lparr>bottom = (case b of FM_BAND_COMMON \<Rightarrow> 175 / 2 | FM_BAND_JAPAN_WIDE \<Rightarrow> 76 | FM_BAND_JAPAN \<Rightarrow> 76),
      top_r = (case b of FM_BAND_COMMON \<Rightarrow> 108 | FM_BAND_JAPAN_WIDE \<Rightarrow> 108 | FM_BAND_JAPAN \<Rightarrow> 90),
      spacing = (case cs of FM_CHANNEL_SPACING_200 \<Rightarrow> rnd32 (2 / 10)
                 | FM_CHANNEL_SPACING_100 \<Rightarrow> rnd32 (1 / 10)
                 | FM_CHANNEL_SPACING_50 \<Rightarrow> rnd32 (5 / 100))\<rparr>"

definition fm_channel_to_frequency :: "u16 \<Rightarrow> fm_frequency_range_t \<Rightarrow> float" where
  "fm_channel_to_frequency channel rng = fadd (fmul (u16_to_float channel) (spacing rng)) (bottom rng)"

definition fm_frequency_to_channel :: "float \<Rightarrow> fm_frequency_range_t \<Rightarrow> u16 option" where
  "fm_frequency_to_channel f rng = float_to_u16 (roundf (fdiv (fsub f (bottom rng)) (spacing rng)))"

subsection \<open>Register access\<close>

text \<open>
  The loop of \<^verbatim>\<open>fm_read_registers\<close>: two bytes, high then low, into \<^verbatim>\<open>*p\<close>; \<^verbatim>\<open>p\<close> goes
  back to register 0 after register 15.
\<close>

fun store_regs :: "(nat \<Rightarrow> u16) \<Rightarrow> nat \<Rightarrow> u8 list \<Rightarrow> (nat \<Rightarrow> u16)" where
  "store_regs rs p (hi # lo # buf) =
     store_regs (rs(p := push_bit 8 (ucast hi) OR ucast lo)) (if p + 1 = 16 then 0 else p + 1) buf"
| "store_regs rs p buf = rs"

definition fm_read_registers :: "si470x_t \<Rightarrow> world \<Rightarrow> nat \<Rightarrow> bool outcome" where
  "fm_read_registers r w n =
     (if \<not> n \<le> 16 then Abort Assertion_failed r w
      else
        let data_size = n * 2;
            (res, buf, w') = i2c_read_blocking w SI4703_ADDR data_size
        in if res \<noteq> int data_size then Return False r w'
           else Return True (r\<lparr>regs := store_regs (regs r) 0xA buf\<rparr>) w')"

definition fm_read_registers_up_to :: "si470x_t \<Rightarrow> world \<Rightarrow> nat \<Rightarrow> bool outcome" where
  "fm_read_registers_up_to r w reg_index =
     (if \<not> reg_index < 16 then Abort Assertion_failed r w
      else fm_read_registers r w (if reg_index < 0xA then reg_index + 7 else reg_index - 9))"

text \<open>
  The loop of \<^verbatim>\<open>fm_write_registers\<close>: \<open>n\<close> registers from \<^verbatim>\<open>*p\<close> on, each as its high byte
  and its low byte.
\<close>

fun encode_regs :: "(nat \<Rightarrow> u16) \<Rightarrow> nat \<Rightarrow> nat \<Rightarrow> u8 list" where
  "encode_regs rs p 0 = []"
| "encode_regs rs p (Suc n) =
     ucast (drop_bit 8 (rs p)) # ucast (rs p AND 0xFF) # encode_regs rs (p + 1) n"

definition fm_write_registers :: "si470x_t \<Rightarrow> world \<Rightarrow> nat \<Rightarrow> bool outcome" where
  "fm_write_registers r w n =
     (if \<not> n \<le> 14 then Abort Assertion_failed r w
      else
        let data_size = n * 2;
            (res, w') = i2c_write_blocking w SI4703_ADDR (encode_regs (regs r) 0x2 n)
        in Return (res = int data_size) r w')"

definition fm_write_registers_up_to :: "si470x_t \<Rightarrow> world \<Rightarrow> nat \<Rightarrow> bool outcome" where
  "fm_write_registers_up_to r w reg_index =
     (if \<not> (0x2 \<le> reg_index \<and> reg_index \<le> 0xF) then Abort Assertion_failed r w
      else fm_write_registers r w (reg_index - 1))"

definition fm_set_seek_sensitivity_bits :: "(nat \<Rightarrow> u16) \<Rightarrow> fm_seek_sensitivity_t \<Rightarrow> (nat \<Rightarrow> u16)" where
  "fm_set_seek_sensitivity_bits rs s =
     (let (seekth, sksnr, skcnt) =
            (case s of
               FM_SEEK_SENSITIVITY_STRONG_ONLY \<Rightarrow> (0xC, 0x7, 0xF)
             | FM_SEEK_SENSITIVITY_RECOMMENDED \<Rightarrow> (0x19, 0x4, 0x8)
             | FM_SEEK_SENSITIVITY_MORE \<Rightarrow> (0xC, 0x4, 0x8)
             | FM_SEEK_SENSITIVITY_MOST \<Rightarrow> (0x0, 0x4, 0xF));
          rs1 = rs(SYSCONFIG2 := fm_set_bits (rs SYSCONFIG2) SEEKTH_BITS SEEKTH_LSB seekth);
          rs2 = rs1(SYSCONFIG3 := fm_set_bits (rs1 SYSCONFIG3) SKSNR_BITS SKSNR_LSB sksnr)
      in rs2(SYSCONFIG3 := fm_set_bits (rs2 SYSCONFIG3) SKCNT_BITS SKCNT_LSB skcnt))"

text \<open>
  The registers a burst read of \<open>n\<close> registers stores into, in bus order: the pointer
  walk of \<^verbatim>\<open>fm_read_registers\<close> from \<open>p\<close>. A burst write of \<open>n\<close> registers takes
  registers \<open>2, 3, ...\<close> in turn: the walk of \<^verbatim>\<open>fm_write_registers\<close>.
\<close>

fun read_burst_regs :: "nat \<Rightarrow> nat \<Rightarrow> nat list" where
  "read_burst_regs p 0 = []"
| "read_burst_regs p (Suc n) = p # read_burst_regs (if p + 1 = 16 then 0 else p + 1) n"

fun write_burst_regs :: "nat \<Rightarrow> nat \<Rightarrow> nat list" where
  "write_burst_regs p 0 = []"
| "write_burst_regs p (Suc n) = p # write_burst_regs (p + 1) n"

subsection \<open>Public interface: state queries\<close>

definition fm_init :: "nat \<Rightarrow> u8 \<Rightarrow> u8 \<Rightarrow> u8 \<Rightarrow> bool \<Rightarrow> si470x_t" where
  "fm_init inst reset sdio sclk pull_ups =
     \<lparr>i2c_inst = inst, reset_pin = reset, sdio_pin = sdio, sclk_pin = sclk,
      enable_pull_ups = pull_ups,
      config = \<lparr>band = FM_BAND_COMMON, channel_spacing = FM_CHANNEL_SPACING_200,
                deemphasis = FM_DEEMPHASIS_75\<rparr>,
      seek_sensitivity = FM_SEEK_SENSITIVITY_RECOMMENDED,
      frequency = 0, mute = True, softmute = True,
      softmute_rate = FM_SOFTMUTE_FASTEST,
      softmute_attenuation = FM_SOFTMUTE_ATTENUATION_16,
      mono = False, volext = False, volume = 0,
      regs = (\<lambda>i. 0), async = async_empty\<rparr>"

definition fm_is_powered_up :: "si470x_t \<Rightarrow> bool" where
  "fm_is_powered_up r = fm_get_bit (regs r POWERCFG) ENABLE_BIT"

definition fm_is_rds_supported :: "si470x_t \<Rightarrow> bool" where
  "fm_is_rds_supported r =
     (let dev = (ucast (fm_get_bits (regs r CHIPID) DEV_BITS DEV_LSB) :: u8)
      in dev = DEV_SI4703)"

definition fm_get_frequency_range :: "si470x_t \<Rightarrow> fm_frequency_range_t" where
  "fm_get_frequency_range r = fm_frequency_range (band (config r)) (channel_spacing (config r))"

definition fm_get_frequency :: "si470x_t \<Rightarrow> float" where
  "fm_get_frequency r = frequency r"

definition fm_get_mute :: "si470x_t \<Rightarrow> bool" where
  "fm_get_mute r = mute r"

definition fm_get_volume :: "si470x_t \<Rightarrow> u8" where
  "fm_get_volume r = volume r"

definition fm_get_volext :: "si470x_t \<Rightarrow> bool" where
  "fm_get_volext r = volext r"

subsection \<open>The asynchronous tasks\<close>

text \<open>
  The loop \<^verbatim>\<open>do { fm_read_registers_up_to(.., STATUSRSSI); } while (STC)\<close> that both
  tasks run after clearing their start bit. It has no bound of its own.
\<close>

partial_function (option) fm_wait_stc_cleared :: "si470x_t \<Rightarrow> world \<Rightarrow> unit outcome option" where
  "fm_wait_stc_cleared r w =
     (case fm_read_registers_up_to r w STATUSRSSI of
        Abort e r1 w1 \<Rightarrow> Some (Abort e r1 w1)
      | Return ok r1 w1 \<Rightarrow>
          if fm_get_bit (regs r1 STATUSRSSI) STC_BIT then fm_wait_stc_cleared r1 w1
          else Some (Return () r1 w1))"

text \<open>
  The last step of both tasks: read up to READCHAN, store the channel's frequency, and
  report done with \<open>res\<close>.
\<close>

definition fm_task_read_channel :: "int \<Rightarrow> si470x_t \<Rightarrow> world \<Rightarrow> fm_async_progress_t outcome" where
  "fm_task_read_channel res r w =
     and_then (fm_read_registers_up_to r w READCHAN) (\<lambda>ok r1 w1.
       let channel = fm_get_bits (regs r1 READCHAN) READCHAN_BITS READCHAN_LSB
       in Return \<lparr>is_done = True, result = res\<rparr>
            (r1\<lparr>frequency := fm_channel_to_frequency channel (fm_get_frequency_range r1)\<rparr>) w1)"

text \<open>
  Both task routines end with the same steps, \<^verbatim>\<open>fm_set_frequency_async_task\<close> from
  \<^verbatim>\<open>// clear tune bit\<close> on with the TUNE bit of CHANNEL, \<^verbatim>\<open>fm_seek_async_task\<close> from
  \<^verbatim>\<open>// clear seek bit\<close> on with the SEEK bit of POWERCFG: clear the start bit \<open>b\<close> in the
  shadow of register \<open>reg\<close>, write up to \<open>reg\<close>, wait until STC is cleared, read the
  channel back and report done with \<open>res\<close>.
\<close>

definition fm_async_task_finish ::
  "nat \<Rightarrow> u16 \<Rightarrow> int \<Rightarrow> si470x_t \<Rightarrow> world \<Rightarrow> fm_async_progress_t outcome option" where
  "fm_async_task_finish reg b res r w =
     (let r1 = set_reg reg (fm_set_bit (regs r reg) b False) r
      in case fm_write_registers_up_to r1 w reg of
           Abort e r2 w2 \<Rightarrow> Some (Abort e r2 w2)
         | Return ok r2 w2 \<Rightarrow>
             and_then_opt (fm_wait_stc_cleared r2 w2) (\<lambda>u r3 w3.
               Some (fm_task_read_channel res r3 w3)))"

definition fm_set_frequency_async_task ::
  "si470x_t \<Rightarrow> world \<Rightarrow> bool \<Rightarrow> fm_async_progress_t outcome option" where
  "fm_set_frequency_async_task r w cancel =
     (if task (async r) \<noteq> Some Set_frequency_async_task then Some (Abort Assertion_failed r w)
      else if state (async r) \<noteq> 1 then Some (Abort Assertion_failed r w)
      else if cancel then fm_async_task_finish CHANNEL TUNE_BIT (- 1) r w
      else
        case fm_read_registers_up_to r w STATUSRSSI of
          Abort e r1 w1 \<Rightarrow> Some (Abort e r1 w1)
        | Return ok r1 w1 \<Rightarrow>
            if \<not> fm_get_bit (regs r1 STATUSRSSI) STC_BIT then
              Some (Return \<lparr>is_done = False, result = 0\<rparr>
                (r1\<lparr>async := (async r1)\<lparr>resume_time :=
                    time_us_64 w1 + word_of_nat (TUNE_POLL_INTERVAL_MS * 1000)\<rparr>\<rparr>) w1)
            else fm_async_task_finish CHANNEL TUNE_BIT 0 r1 w1)"

definition fm_seek_async_task ::
  "si470x_t \<Rightarrow> world \<Rightarrow> bool \<Rightarrow> fm_async_progress_t outcome option" where
  "fm_seek_async_task r w cancel =
     (if task (async r) \<noteq> Some Seek_async_task then Some (Abort Assertion_failed r w)
      else if state (async r) \<noteq> 1 then Some (Abort Assertion_failed r w)
      else if cancel then fm_async_task_finish POWERCFG SEEK_BIT (- 1) r w
      else
        case fm_read_registers_up_to r w READCHAN of
          Abort e r1 w1 \<Rightarrow> Some (Abort e r1 w1)
        | Return ok r1 w1 \<Rightarrow>
            if \<not> fm_get_bit (regs r1 STATUSRSSI) STC_BIT then
              let channel = fm_get_bits (regs r1 READCHAN) READCHAN_BITS READCHAN_LSB;
                  r2 = r1\<lparr>frequency := fm_channel_to_frequency channel (fm_get_frequency_range r1)\<rparr>
              in Some (Return \<lparr>is_done = False, result = 0\<rparr>
                   (r2\<lparr>async := (async r2)\<lparr>resume_time :=
                       time_us_64 w1 + word_of_nat (SEEK_POLL_INTERVAL_MS * 1000)\<rparr>\<rparr>) w1)
            else
              fm_async_task_finish POWERCFG SEEK_BIT
                (if fm_get_bit (regs r1 STATUSRSSI) SFBL_BIT then - 1 else 0) r1 w1)"

text \<open>The call through the slot's function pointer, \<^verbatim>\<open>radio->async.task(radio, cancel)\<close>.\<close>

fun run_task ::
  "fm_async_task_t \<Rightarrow> si470x_t \<Rightarrow> world \<Rightarrow> bool \<Rightarrow> fm_async_progress_t outcome option" where
  "run_task Set_frequency_async_task r w cancel = fm_set_frequency_async_task r w cancel"
| "run_task Seek_async_task r w cancel = fm_seek_async_task r w cancel"

definition fm_async_task_tick :: "si470x_t \<Rightarrow> world \<Rightarrow> fm_async_progress_t outcome option" where
  "fm_async_task_tick r w =
     (case task (async r) of
        None \<Rightarrow> Some (Abort Assertion_failed r w)
      | Some t \<Rightarrow>
          if time_us_64 w < resume_time (async r) then
            Some (Return \<lparr>is_done = False, result = 0\<rparr> r w)
          else
            and_then_opt (run_task t r w False) (\<lambda>progress r1 w1.
              Some (Return progress (if is_done progress then r1\<lparr>async := async_empty\<rparr> else r1) w1)))"

definition fm_async_task_cancel :: "si470x_t \<Rightarrow> world \<Rightarrow> unit outcome option" where
  "fm_async_task_cancel r w =
     (case task (async r) of
        None \<Rightarrow> Some (Abort Assertion_failed r w)
      | Some t \<Rightarrow>
          and_then_opt (run_task t r w True) (\<lambda>progress r1 w1.
            Some (Return () (r1\<lparr>async := async_empty\<rparr>) w1)))"

subsection \<open>Tuning and seeking\<close>

definition fm_set_frequency_async :: "si470x_t \<Rightarrow> world \<Rightarrow> float \<Rightarrow> unit outcome" where
  "fm_set_frequency_async r w f =
     (if \<not> fm_is_powered_up r then Abort Assertion_failed r w
      else if task (async r) \<noteq> None then Abort Assertion_failed r w
      else
        case fm_frequency_to_channel f (fm_get_frequency_range r) of
          None \<Rightarrow> Abort Undefined_conversion r w
        | Some channel \<Rightarrow>
            let r1 = set_reg CHANNEL (fm_set_bits (regs r CHANNEL) CHAN_BITS CHAN_LSB channel) r;
                r2 = set_reg CHANNEL (fm_set_bit (regs r1 CHANNEL) TUNE_BIT True) r1
            in and_then (fm_write_registers_up_to r2 w CHANNEL) (\<lambda>ok r3 w3.
                 Return () (r3\<lparr>async := \<lparr>task = Some Set_frequency_async_task, state = 1,
                     resume_time = time_us_64 w3 + word_of_nat (TUNE_POLL_INTERVAL_MS * 1000)\<rparr>\<rparr>) w3))"

definition fm_seek_async :: "si470x_t \<Rightarrow> world \<Rightarrow> fm_seek_direction_t \<Rightarrow> unit outcome" where
  "fm_seek_async r w direction =
     (if \<not> fm_is_powered_up r then Abort Assertion_failed r w
      else if task (async r) \<noteq> None then Abort Assertion_failed r w
      else
        let r1 = set_reg POWERCFG (fm_set_bit (regs r POWERCFG) SKMODE_BIT False) r;
            r2 = set_reg POWERCFG (fm_set_bit (regs r1 POWERCFG) SEEKUP_BIT (direction = FM_SEEK_UP)) r1;
            r3 = set_reg POWERCFG (fm_set_bit (regs r2 POWERCFG) SEEK_BIT True) r2
        in and_then (fm_write_registers_up_to r3 w POWERCFG) (\<lambda>ok r4 w4.
             Return () (r4\<lparr>async := \<lparr>task = Some Seek_async_task, state = 1,
                 resume_time = time_us_64 w4 + word_of_nat (SEEK_POLL_INTERVAL_MS * 1000)\<rparr>\<rparr>) w4))"

text \<open>
  The loop \<^verbatim>\<open>do { sleep_ms(interval); progress = fm_async_task_tick(radio); } while (!progress.done)\<close>
  of the two blocking calls.
\<close>

partial_function (option) fm_poll_until_done ::
  "nat \<Rightarrow> si470x_t \<Rightarrow> world \<Rightarrow> fm_async_progress_t outcome option" where
  "fm_poll_until_done interval r w =
     (case fm_async_task_tick r (sleep_ms interval w) of
        None \<Rightarrow> None
      | Some (Abort e r1 w1) \<Rightarrow> Some (Abort e r1 w1)
      | Some (Return progress r1 w1) \<Rightarrow>
          if \<not> is_done progress then fm_poll_until_done interval r1 w1
          else Some (Return progress r1 w1))"

definition fm_set_frequency_blocking :: "si470x_t \<Rightarrow> world \<Rightarrow> float \<Rightarrow> unit outcome option" where
  "fm_set_frequency_blocking r w f =
     (if \<not> fm_is_powered_up r then Some (Abort Assertion_failed r w)
      else if task (async r) \<noteq> None then Some (Abort Assertion_failed r w)
      else if frequency r = f then Some (Return () r w)
      else
        case fm_set_frequency_async r w f of
          Abort e r1 w1 \<Rightarrow> Some (Abort e r1 w1)
        | Return u r1 w1 \<Rightarrow>
            and_then_opt (fm_poll_until_done TUNE_POLL_INTERVAL_MS r1 w1) (\<lambda>progress r2 w2.
              Some (Return () r2 w2)))"

definition fm_seek_blocking :: "si470x_t \<Rightarrow> world \<Rightarrow> fm_seek_direction_t \<Rightarrow> bool outcome option" where
  "fm_seek_blocking r w direction =
     (if task (async r) \<noteq> None then Some (Abort Assertion_failed r w)
      else
        case fm_seek_async r w direction of
          Abort e r1 w1 \<Rightarrow> Some (Abort e r1 w1)
        | Return u r1 w1 \<Rightarrow>
            and_then_opt (fm_poll_until_done SEEK_POLL_INTERVAL_MS r1 w1) (\<lambda>progress r2 w2.
              Some (Return (result progress = 0) r2 w2)))"

subsection \<open>Settings\<close>

definition fm_set_seek_sensitivity :: "si470x_t \<Rightarrow> world \<Rightarrow> fm_seek_sensitivity_t \<Rightarrow> unit outcome" where
  "fm_set_seek_sensitivity r w s =
     (if \<not> fm_is_powered_up r then Abort Assertion_failed r w
      else if task (async r) \<noteq> None then Abort Assertion_failed r w
      else if seek_sensitivity r = s then Return () r w
      else
        let r1 = r\<lparr>regs := fm_set_seek_sensitivity_bits (regs r) s\<rparr>
        in and_then (fm_write_registers_up_to r1 w SYSCONFIG3) (\<lambda>ok r2 w2.
             Return () (r2\<lparr>seek_sensitivity := s\<rparr>) w2))"

definition fm_set_mute :: "si470x_t \<Rightarrow> world \<Rightarrow> bool \<Rightarrow> unit outcome" where
  "fm_set_mute r w m =
     (if \<not> fm_is_powered_up r then Abort Assertion_failed r w
      else if task (async r) \<noteq> None then Abort Assertion_failed r w
      else if mute r = m then Return () r w
      else
        let r1 = set_reg POWERCFG (fm_set_bit (regs r POWERCFG) DMUTE_BIT (\<not> m)) r
        in and_then (fm_write_registers_up_to r1 w POWERCFG) (\<lambda>ok r2 w2.
             Return () (r2\<lparr>mute := m\<rparr>) w2))"

definition fm_set_softmute :: "si470x_t \<Rightarrow> world \<Rightarrow> bool \<Rightarrow> unit outcome" where
  "fm_set_softmute r w sm =
     (if \<not> fm_is_powered_up r then Abort Assertion_failed r w
      else if task (async r) \<noteq> None then Abort Assertion_failed r w
      else if softmute r = sm then Return () r w
      else
        let r1 = set_reg POWERCFG (fm_set_bit (regs r POWERCFG) DSMUTE_BIT (\<not> sm)) r
        in and_then (fm_write_registers_up_to r1 w POWERCFG) (\<lambda>ok r2 w2.
             Return () (r2\<lparr>softmute := sm\<rparr>) w2))"

definition fm_set_softmute_rate :: "si470x_t \<Rightarrow> world \<Rightarrow> fm_softmute_rate_t \<Rightarrow> unit outcome" where
  "fm_set_softmute_rate r w sr =
     (if \<not> fm_is_powered_up r then Abort Assertion_failed r w
      else if task (async r) \<noteq> None then Abort Assertion_failed r w
      else if softmute_rate r = sr then Return () r w
      else
        let r1 = set_reg SYSCONFIG3
                   (fm_set_bits (regs r SYSCONFIG3) SMUTER_BITS SMUTER_LSB (softmute_rate_val sr)) r
        in and_then (fm_write_registers_up_to r1 w SYSCONFIG3) (\<lambda>ok r2 w2.
             Return () (r2\<lparr>softmute_rate := sr\<rparr>) w2))"

definition fm_set_softmute_attenuation ::
  "si470x_t \<Rightarrow> world \<Rightarrow> fm_softmute_attenuation_t \<Rightarrow> unit outcome" where
  "fm_set_softmute_attenuation r w sa =
     (if \<not> fm_is_powered_up r then Abort Assertion_failed r w
      else if task (async r) \<noteq> None then Abort Assertion_failed r w
      else if softmute_attenuation r = sa then Return () r w
      else
        let r1 = set_reg SYSCONFIG3
                   (fm_set_bits (regs r SYSCONFIG3) SMUTEA_BITS SMUTEA_LSB (softmute_attenuation_val sa)) r
        in and_then (fm_write_registers_up_to r1 w SYSCONFIG3) (\<lambda>ok r2 w2.
             Return () (r2\<lparr>softmute_attenuation := sa\<rparr>) w2))"

definition fm_set_mono :: "si470x_t \<Rightarrow> world \<Rightarrow> bool \<Rightarrow> unit outcome" where
  "fm_set_mono r w mo =
     (if \<not> fm_is_powered_up r then Abort Assertion_failed r w
      else if task (async r) \<noteq> None then Abort Assertion_failed r w
      else if mono r = mo then Return () r w
      else
        let r1 = set_reg POWERCFG (fm_set_bit (regs r POWERCFG) MONO_BIT mo) r
        in and_then (fm_write_registers_up_to r1 w POWERCFG) (\<lambda>ok r2 w2.
             Return () (r2\<lparr>mono := mo\<rparr>) w2))"

definition fm_set_volume :: "si470x_t \<Rightarrow> world \<Rightarrow> u8 \<Rightarrow> bool \<Rightarrow> unit outcome" where
  "fm_set_volume r w v0 ve =
     (if \<not> fm_is_powered_up r then Abort Assertion_failed r w
      else if task (async r) \<noteq> None then Abort Assertion_failed r w
      else
        let v = min v0 FM_MAX_VOLUME
        in if volume r = v \<and> volext r = ve then Return () r w
           else
             let r1 = set_reg SYSCONFIG2
                        (fm_set_bits (regs r SYSCONFIG2) VOLUME_BITS VOLUME_LSB (ucast v)) r;
                 r2 = set_reg SYSCONFIG3 (fm_set_bit (regs r1 SYSCONFIG3) VOLEXT_BIT ve) r1
             in and_then (fm_write_registers_up_to r2 w SYSCONFIG3) (\<lambda>ok r3 w3.
                  Return () (r3\<lparr>volume := v, volext := ve\<rparr>) w3))"

subsection \<open>Power\<close>

definition emit_all :: "event list \<Rightarrow> world \<Rightarrow> world" where
  "emit_all es w = foldl (\<lambda>w' e. emit e w') w es"

text \<open>The branch of \<^verbatim>\<open>fm_power_up\<close> that wakes the chip after a power down.\<close>

definition fm_power_up_wake :: "si470x_t \<Rightarrow> world \<Rightarrow> unit outcome" where
  "fm_power_up_wake r w =
     (let r1 = set_reg POWERCFG (fm_set_bit (regs r POWERCFG) ENABLE_BIT True) r;
          r2 = set_reg POWERCFG (fm_set_bit (regs r1 POWERCFG) DISABLE_BIT False) r1;
          r3 = set_reg POWERCFG (fm_set_bit (regs r2 POWERCFG) DMUTE_BIT (\<not> mute r2)) r2
      in and_then (fm_write_registers_up_to r3 w POWERCFG) (\<lambda>ok r4 w4.
           let w5 = sleep_ms 110 w4
           in if fm_is_rds_supported r4 then
                let r5 = set_reg SYSCONFIG1 (fm_set_bit (regs r4 SYSCONFIG1) RDS_BIT True) r4
                in and_then (fm_write_registers_up_to r5 w5 SYSCONFIG1) (\<lambda>ok r6 w6. Return () r6 w6)
              else Return () r4 w5))"

text \<open>The part of \<^verbatim>\<open>fm_power_up\<close> from \<^verbatim>\<open>// setup\<close> on.\<close>

definition fm_power_up_setup :: "si470x_t \<Rightarrow> world \<Rightarrow> fm_config_t \<Rightarrow> unit outcome option" where
  "fm_power_up_setup r w cfg =
     (let r1 = set_reg POWERCFG (fm_set_bit (regs r POWERCFG) MONO_BIT (mono r)) r;
          r2 = set_reg POWERCFG (fm_set_bit (regs r1 POWERCFG) DMUTE_BIT (\<not> mute r1)) r1;
          r3 = set_reg POWERCFG (fm_set_bit (regs r2 POWERCFG) DSMUTE_BIT (\<not> softmute r2)) r2;
          r4 = (if fm_is_rds_supported r3
                then set_reg SYSCONFIG1 (fm_set_bit (regs r3 SYSCONFIG1) RDS_BIT True) r3 else r3);
          r5 = set_reg SYSCONFIG1
                 (fm_set_bit (regs r4 SYSCONFIG1) DE_BIT (deemphasis cfg = FM_DEEMPHASIS_50)) r4;
          r6 = set_reg SYSCONFIG2
                 (fm_set_bits (regs r5 SYSCONFIG2) VOLUME_BITS VOLUME_LSB (ucast (volume r5))) r5;
          r7 = set_reg SYSCONFIG2
                 (fm_set_bits (regs r6 SYSCONFIG2) BAND_BITS BAND_LSB (band_val (band cfg))) r6;
          r8 = set_reg SYSCONFIG2
                 (fm_set_bits (regs r7 SYSCONFIG2) SPACE_BITS SPACE_LSB
                    (channel_spacing_val (channel_spacing cfg))) r7;
          r9 = set_reg SYSCONFIG3 (fm_set_bit (regs r8 SYSCONFIG3) VOLEXT_BIT (volext r8)) r8;
          r10 = set_reg SYSCONFIG3
                  (fm_set_bits (regs r9 SYSCONFIG3) SMUTEA_BITS SMUTEA_LSB
                     (softmute_attenuation_val (softmute_attenuation r9))) r9;
          r11 = set_reg SYSCONFIG3
                  (fm_set_bits (regs r10 SYSCONFIG3) SMUTER_BITS SMUTER_LSB
                     (softmute_rate_val (softmute_rate r10))) r10;
          r12 = r11\<lparr>regs := fm_set_seek_sensitivity_bits (regs r11) (seek_sensitivity r11)\<rparr>
      in case fm_write_registers_up_to r12 w SYSCONFIG3 of
           Abort e r13 w13 \<Rightarrow> Some (Abort e r13 w13)
         | Return ok r13 w13 \<Rightarrow>
             if frequency r13 \<noteq> 0 then
               fm_set_frequency_blocking (r13\<lparr>frequency := 0\<rparr>) w13 (frequency r13)
             else Some (Return () r13 w13))"

text \<open>The cold start of \<^verbatim>\<open>fm_power_up\<close>, from \<^verbatim>\<open>radio->config = config\<close> on.\<close>

definition fm_power_up_cold :: "si470x_t \<Rightarrow> world \<Rightarrow> fm_config_t \<Rightarrow> unit outcome option" where
  "fm_power_up_cold r w cfg =
     (let r0 = r\<lparr>config := cfg\<rparr>;
          w0 = emit_all
                 ([Gpio_init (reset_pin r0), Gpio_set_dir (reset_pin r0) True,
                   Gpio_init (sdio_pin r0), Gpio_set_dir (sdio_pin r0) True,
                   Gpio_put (sdio_pin r0) False, Gpio_put (reset_pin r0) False, Sleep_ms 5,
                   Gpio_put (reset_pin r0) True, Sleep_ms 5,
                   Gpio_set_function (sdio_pin r0) GPIO_FUNC_I2C,
                   Gpio_set_function (sclk_pin r0) GPIO_FUNC_I2C]
                  @ (if enable_pull_ups r0
                     then [Gpio_pull_up (sdio_pin r0), Gpio_pull_up (sclk_pin r0)] else [])) w
      in case fm_read_registers r0 w0 16 of
           Abort e r1 w1 \<Rightarrow> Some (Abort e r1 w1)
         | Return ok r1 w1 \<Rightarrow>
             if \<not> ok then Some (Abort Panic r1 w1)
             else if fm_get_bits (regs r1 DEVICEID) MFGID_BITS MFGID_LSB \<noteq> 0x242
               then Some (Abort Assertion_failed r1 w1)
             else if (ucast (fm_get_bits (regs r1 DEVICEID) PN_BITS PN_LSB) :: u8) \<noteq> 0x1
               then Some (Abort Assertion_failed r1 w1)
             else
               let r2 = set_reg TEST1 (regs r1 TEST1 OR XOSCEN_BIT) r1;
                   r3 = set_reg RDSD 0 r2
               in case fm_write_registers_up_to r3 w1 RDSD of
                    Abort e r4 w4 \<Rightarrow> Some (Abort e r4 w4)
                  | Return ok4 r4 w4 \<Rightarrow>
                      let r5 = set_reg POWERCFG ENABLE_BIT r4
                      in case fm_write_registers_up_to r5 (sleep_ms 500 w4) POWERCFG of
                           Abort e r6 w6 \<Rightarrow> Some (Abort e r6 w6)
                         | Return ok6 r6 w6 \<Rightarrow>
                             (case fm_read_registers r6 (sleep_ms 110 w6) 16 of
                                Abort e r7 w7 \<Rightarrow> Some (Abort e r7 w7)
                              | Return ok7 r7 w7 \<Rightarrow>
                                  let dev = (ucast (fm_get_bits (regs r7 CHIPID) DEV_BITS DEV_LSB) :: u8)
                                  in if \<not> (dev = DEV_SI4702 \<or> dev = DEV_SI4703)
                                     then Some (Abort Assertion_failed r7 w7)
                                     else fm_power_up_setup r7 w7 cfg))"

definition fm_power_up :: "si470x_t \<Rightarrow> world \<Rightarrow> fm_config_t \<Rightarrow> unit outcome option" where
  "fm_power_up r w cfg =
     (if fm_is_powered_up r then Some (Abort Assertion_failed r w)
      else if fm_get_bit (regs r POWERCFG) DISABLE_BIT \<and> config r = cfg
        then Some (fm_power_up_wake r w)
      else fm_power_up_cold r w cfg)"

text \<open>The part of \<^verbatim>\<open>fm_power_down\<close> after the cancellation of a task in flight.\<close>

definition fm_power_down_chip :: "si470x_t \<Rightarrow> world \<Rightarrow> unit outcome" where
  "fm_power_down_chip r w =
     and_then
       (if fm_is_rds_supported r then
          fm_write_registers_up_to
            (set_reg SYSCONFIG1 (fm_set_bit (regs r SYSCONFIG1) RDS_BIT False) r) w SYSCONFIG1
        else Return True r w)
       (\<lambda>ok r2 w2.
          let r3 = set_reg POWERCFG (fm_set_bit (regs r2 POWERCFG) DMUTE_BIT False) r2;
              r4 = set_reg POWERCFG (fm_set_bit (regs r3 POWERCFG) DISABLE_BIT True) r3
          in and_then (fm_write_registers_up_to r4 w2 POWERCFG) (\<lambda>ok5 r5 w5.
               Return () (set_reg POWERCFG (fm_set_bit (regs r5 POWERCFG) ENABLE_BIT False) r5) w5))"

definition fm_power_down :: "si470x_t \<Rightarrow> world \<Rightarrow> unit outcome option" where
  "fm_power_down r w =
     (if \<not> fm_is_powered_up r then Some (Abort Assertion_failed r w)
      else
        and_then_opt
          (if task (async r) \<noteq> None then fm_async_task_cancel r w else Some (Return () r w))
          (\<lambda>u r1 w1. Some (fm_power_down_chip r1 w1)))"

section \<open>The example program (fm\_example.c)\<close>

text \<open>
  \<^verbatim>\<open>get_volume\<close> and \<^verbatim>\<open>set_volume\<close> remap the volume and the extension flag into one
  range 0-30. The program's global \<^verbatim>\<open>radio\<close> is the handle passed here.
\<close>

definition get_volume :: "si470x_t \<Rightarrow> u8" where
  "get_volume r =
     (let v = fm_get_volume r
      in if v \<noteq> 0 \<and> \<not> fm_get_volext r then v + 15 else v)"

definition set_volume :: "si470x_t \<Rightarrow> world \<Rightarrow> u8 \<Rightarrow> unit outcome" where
  "set_volume r w v =
     (if \<not> v \<le> 30 then Abort Assertion_failed r w
      else if v < 16 then fm_set_volume r w v True
      else fm_set_volume r w (v - 15) False)"

section \<open>Notions used to state the properties\<close>

text \<open>
  The burst write with which a task stops the chip: the registers from 0x2 up to \<open>reg\<close>,
  with bit \<open>b\<close> of \<open>reg\<close> cleared. A tune is stopped by clearing TUNE in CHANNEL, a
  seek by clearing SEEK in POWERCFG.
\<close>

definition stop_write :: "nat \<Rightarrow> u16 \<Rightarrow> si470x_t \<Rightarrow> event" where
  "stop_write reg b r =
     I2C_write SI4703_ADDR
       (encode_regs ((regs r)(reg := fm_set_bit (regs r reg) b False)) 0x2 (reg - 1))"

fun task_start_reg :: "fm_async_task_t \<Rightarrow> nat" where
  "task_start_reg Set_frequency_async_task = CHANNEL"
| "task_start_reg Seek_async_task = POWERCFG"

fun task_start_bit :: "fm_async_task_t \<Rightarrow> u16" where
  "task_start_bit Set_frequency_async_task = TUNE_BIT"
| "task_start_bit Seek_async_task = SEEK_BIT"

definition task_stop_write :: "fm_async_task_t \<Rightarrow> si470x_t \<Rightarrow> event" where
  "task_stop_write t r = stop_write (task_start_reg t) (task_start_bit t) r"

text \<open>The status reads of the wait loop, \<open>n\<close> of them.\<close>

definition status_reads :: "nat \<Rightarrow> event list" where
  "status_reads n = replicate n (I2C_read SI4703_ADDR 2)"

text \<open>
  An assumption on the chip: once the trace is \<open>tr\<close>, the read of STATUSRSSI that follows
  \<open>k\<close> earlier ones transfers both bytes, and the register they hold has STC clear. (The
  datasheet promises that STC clears within 1.5 ms of the start bit being cleared.)
\<close>

definition stc_clear_after :: "nat \<Rightarrow> event list \<Rightarrow> world \<Rightarrow> bool" where
  "stc_clear_after k tr w =
     (let buf = i2c_reply w (tr @ status_reads k) 2
      in length buf = 2 \<and>
         \<not> fm_get_bit (push_bit 8 (ucast (buf ! 0)) OR ucast (buf ! 1)) STC_BIT)"

section \<open>Concrete handles and environments\<close>

text \<open>
  An environment in which every read transfers as many zero bytes as requested, every
  write is acknowledged in full and the clock stands at 0; and the handle of the example
  program (reset pin 15, the default I2C pins 4 and 5) with the chip enabled.
\<close>

definition quiet_world :: world where
  "quiet_world =
     \<lparr>trace = [], i2c_reply = (\<lambda>tr n. replicate n 0), i2c_ack = (\<lambda>tr buf. int (length buf)),
      clock = (\<lambda>tr. 0)\<rparr>"

definition radio_up :: si470x_t where
  "radio_up = (fm_init 0 15 4 5 True)\<lparr>regs := (\<lambda>i. 0)(POWERCFG := ENABLE_BIT)\<rparr>"

text \<open>The same handle while a tune, or a seek, is in flight.\<close>

definition radio_tuning :: si470x_t where
  "radio_tuning =
     radio_up\<lparr>async := \<lparr>task = Some Set_frequency_async_task, state = 1, resume_time = 20000\<rparr>\<rparr>"

definition radio_seeking :: si470x_t where
  "radio_seeking =
     radio_up\<lparr>async := \<lparr>task = Some Seek_async_task, state = 1, resume_time = 200000\<rparr>\<rparr>"

text \<open>
  An environment whose first read, if it asks for as many bytes as \<open>first\<close> has,
  transfers \<open>first\<close>; every other read transfers as many bytes as requested, all of
  them 0, as in \<open>quiet_world\<close>. The clock stands at 200000.
\<close>

definition chip_world :: "u8 list \<Rightarrow> world" where
  "chip_world first =
     \<lparr>trace = [],
      i2c_reply = (\<lambda>tr n. if tr = [] \<and> n = length first then first else replicate n 0),
      i2c_ack = (\<lambda>tr buf. int (length buf)),
      clock = (\<lambda>tr. 200000)\<rparr>"

text \<open>
  The handle of an Si4703 (device id 9, with RDS) that plays unmuted with RDS on while a
  seek upwards is in flight.
\<close>

definition radio_si4703_seeking :: si470x_t where
  "radio_si4703_seeking =
     (fm_init 0 15 4 5 True)
       \<lparr>mute := False,
        regs := (\<lambda>i. 0)(CHIPID := 0x0240, POWERCFG := 0x4301, SYSCONFIG1 := 0x1800),
        async := \<lparr>task = Some Seek_async_task, state = 1, resume_time = 200000\<rparr>\<rparr>"

text \<open>The enabled handle at the volume the example program sets: level 15, extended range.\<close>

definition radio_loud :: si470x_t where
  "radio_loud = radio_up\<lparr>volext := True, volume := 15\<rparr>"

text \<open>
  The regional configuration \<^verbatim>\<open>fm_config_usa()\<close>, and two handles as \<^verbatim>\<open>fm_power_down\<close>
  leaves them (DISABLE set and ENABLE clear in the shadow of POWERCFG) after the user had
  switched mute off: one of an Si4703 (device id 9, with RDS), one of an Si4702 (device
  id 1).
\<close>

definition cfg_usa :: fm_config_t where
  "cfg_usa = \<lparr>band = FM_BAND_COMMON, channel_spacing = FM_CHANNEL_SPACING_200, deemphasis = FM_DEEMPHASIS_75\<rparr>"

definition radio_asleep_si4703 :: si470x_t where
  "radio_asleep_si4703 =
     (fm_init 0 15 4 5 True)\<lparr>mute := False, regs := (\<lambda>i. 0)(CHIPID := 0x0240, POWERCFG := DISABLE_BIT)\<rparr>"

definition radio_asleep_si4702 :: si470x_t where
  "radio_asleep_si4702 =
     (fm_init 0 15 4 5 True)\<lparr>mute := False, regs := (\<lambda>i. 0)(CHIPID := 0x0040, POWERCFG := DISABLE_BIT)\<rparr>"

section \<open>Properties\<close>

subsection \<open>Register access\<close>

lemma reg_index_cases:
  "(reg_index::nat) < 16 \<Longrightarrow>
   reg_index \<in> {0x0, 0x1, 0x2, 0x3, 0x4, 0x5, 0x6, 0x7} \<or>
   reg_index \<in> {0x8, 0x9, 0xA, 0xB, 0xC, 0xD, 0xE, 0xF}"
  by (simp only: insert_iff empty_iff) arith

lemma fm_read_registers_eq:
  "n \<le> 16 \<Longrightarrow>
   fm_read_registers r w n =
     (let buf = i2c_reply w (trace w) (n * 2)
      in Return (length buf = n * 2)
           (if length buf = n * 2 then r\<lparr>regs := store_regs (regs r) 0xA buf\<rparr> else r)
           (emit (I2C_read SI4703_ADDR (n * 2)) w))"
  by (simp add: fm_read_registers_def i2c_read_blocking_def Let_def)

lemma fm_read_registers_up_to_eq:
  "reg_index < 16 \<Longrightarrow>
   fm_read_registers_up_to r w reg_index =
     fm_read_registers r w (if reg_index < 0xA then reg_index + 7 else reg_index - 9)"
  by (simp add: fm_read_registers_up_to_def)

lemma fm_write_registers_up_to_eq:
  "2 \<le> reg_index \<Longrightarrow> reg_index \<le> 15 \<Longrightarrow>
   fm_write_registers_up_to r w reg_index =
     (let buf = encode_regs (regs r) 0x2 (reg_index - 1)
      in Return (i2c_ack w (trace w) buf = int ((reg_index - 1) * 2)) r
           (emit (I2C_write SI4703_ADDR buf) w))"
  by (simp add: fm_write_registers_up_to_def fm_write_registers_def i2c_write_blocking_def Let_def)

lemma length_encode_regs: "length (encode_regs rs p n) = 2 * n"
  by (induction n arbitrary: p) simp_all

lemma read_count_formula:
  "reg_index < 16 \<Longrightarrow>
   (if reg_index < 0xA then reg_index + 7 else reg_index - 9) =
     nat ((int reg_index - 0xA) mod 16) + 1"
  by (drule reg_index_cases) (auto simp: eval_nat_numeral)

lemma read_burst_reaches:
  "reg_index < 16 \<Longrightarrow>
   last (read_burst_regs 0xA (nat ((int reg_index - 0xA) mod 16) + 1)) = reg_index \<and>
   reg_index \<notin> set (read_burst_regs 0xA (nat ((int reg_index - 0xA) mod 16)))"
  by (drule reg_index_cases) (auto simp: eval_nat_numeral)

lemma set_read_burst_regs_mono:
  "m \<le> n \<Longrightarrow> set (read_burst_regs p m) \<subseteq> set (read_burst_regs p n)"
proof (induction m arbitrary: p n)
  case 0
  then show ?case by simp
next
  case (Suc m)
  then obtain k where "n = Suc k" and "m \<le> k" by (cases n) auto
  with Suc.IH show ?case by auto
qed

lemma write_burst_regs_eq: "write_burst_regs p n = [p..<p + n]"
  by (induction n arbitrary: p) (simp_all add: upt_rec)

text \<open>A burst read leaves every register outside its walk as it was.\<close>

lemma store_regs_frame:
  "i \<notin> set (read_burst_regs p (length buf div 2)) \<Longrightarrow> store_regs rs p buf i = rs i"
  by (induction rs p buf rule: store_regs.induct) auto

text \<open>
  After a complete burst of \<open>k + 1\<close> registers, the last register of the walk holds the
  last two bytes transferred, high byte first.
\<close>

lemma store_regs_last:
  "length buf = 2 * Suc k \<Longrightarrow>
   store_regs rs p buf (last (read_burst_regs p (Suc k))) =
     push_bit 8 (ucast (buf ! (2 * k))) OR ucast (buf ! (2 * k + 1))"
proof (induction k arbitrary: rs p buf)
  case 0
  then obtain hi lo where "buf = [hi, lo]"
    by (cases buf; cases "tl buf") auto
  then show ?case by simp
next
  case (Suc k)
  then obtain hi lo buf' where buf: "buf = hi # lo # buf'" and len: "length buf' = 2 * Suc k"
    by (cases buf; cases "tl buf") auto
  from Suc.IH [OF len] show ?case
    by (simp add: buf)
qed

text \<open>
  C8. For every register index \<open>reg_index\<close> in 0x0-0xF, \<^verbatim>\<open>fm_read_registers_up_to\<close>
  issues one burst read of exactly \<open>((reg_index - 0xA) mod 16) + 1\<close> registers (two bytes
  each): the walk of that many registers from 0xA, wrapping from 0xF to 0x0, ends at
  \<open>reg_index\<close>, no shorter walk contains it, and after a complete transfer the shadow of
  \<open>reg_index\<close> holds the last two bytes read. For every \<open>reg_index\<close> in 0x2-0xF,
  \<^verbatim>\<open>fm_write_registers_up_to\<close> issues one burst write of exactly \<open>reg_index - 1\<close>
  registers: the walk from 0x2 ends at \<open>reg_index\<close> and no shorter walk contains it.
\<close>

theorem register_bursts_are_minimal:
  "(reg_index < 16 \<longrightarrow>
      (let n = nat ((int reg_index - 0xA) mod 16) + 1;
           buf = i2c_reply w (trace w) (n * 2)
       in fm_read_registers_up_to r w reg_index =
            Return (length buf = n * 2)
              (if length buf = n * 2 then r\<lparr>regs := store_regs (regs r) 0xA buf\<rparr> else r)
              (emit (I2C_read SI4703_ADDR (n * 2)) w) \<and>
          last (read_burst_regs 0xA n) = reg_index \<and>
          (\<forall>m<n. reg_index \<notin> set (read_burst_regs 0xA m)) \<and>
          (length buf = n * 2 \<longrightarrow>
             store_regs (regs r) 0xA buf reg_index =
               push_bit 8 (ucast (buf ! (n * 2 - 2))) OR ucast (buf ! (n * 2 - 1))))) \<and>
   (0x2 \<le> reg_index \<and> reg_index \<le> 0xF \<longrightarrow>
      (let n = reg_index - 1;
           buf = encode_regs (regs r) 0x2 n
       in fm_write_registers_up_to r w reg_index =
            Return (i2c_ack w (trace w) buf = int (n * 2)) r (emit (I2C_write SI4703_ADDR buf) w) \<and>
          length buf = n * 2 \<and>
          last (write_burst_regs 0x2 n) = reg_index \<and>
          (\<forall>m<n. reg_index \<notin> set (write_burst_regs 0x2 m))))"
proof (intro conjI impI)
  assume lt: "reg_index < 16"
  define k where "k = nat ((int reg_index - 0xA) mod 16)"
  have n: "(if reg_index < 0xA then reg_index + 7 else reg_index - 9) = k + 1"
    unfolding k_def by (rule read_count_formula [OF lt])
  have k16: "k + 1 \<le> 16" using n lt by (auto split: if_splits)
  have reach: "last (read_burst_regs 0xA (k + 1)) = reg_index"
    and notyet: "reg_index \<notin> set (read_burst_regs 0xA k)"
    using read_burst_reaches [OF lt] unfolding k_def by simp_all
  have minimal: "\<forall>m<k + 1. reg_index \<notin> set (read_burst_regs 0xA m)"
  proof (intro allI impI)
    fix m assume "m < k + 1"
    then have "set (read_burst_regs 0xA m) \<subseteq> set (read_burst_regs 0xA k)"
      by (intro set_read_burst_regs_mono) simp
    with notyet show "reg_index \<notin> set (read_burst_regs 0xA m)" by blast
  qed
  have stored: "store_regs (regs r) 0xA buf reg_index =
      push_bit 8 (ucast (buf ! ((k + 1) * 2 - 2))) OR ucast (buf ! ((k + 1) * 2 - 1))"
    if "length buf = (k + 1) * 2" for buf
  proof -
    from that have "length buf = 2 * Suc k" by simp
    from store_regs_last [OF this, of "regs r" "0xA"] reach show ?thesis
      by (simp add: mult.commute)
  qed
  show "let n = nat ((int reg_index - 0xA) mod 16) + 1;
            buf = i2c_reply w (trace w) (n * 2)
        in fm_read_registers_up_to r w reg_index =
             Return (length buf = n * 2)
               (if length buf = n * 2 then r\<lparr>regs := store_regs (regs r) 0xA buf\<rparr> else r)
               (emit (I2C_read SI4703_ADDR (n * 2)) w) \<and>
           last (read_burst_regs 0xA n) = reg_index \<and>
           (\<forall>m<n. reg_index \<notin> set (read_burst_regs 0xA m)) \<and>
           (length buf = n * 2 \<longrightarrow>
              store_regs (regs r) 0xA buf reg_index =
                push_bit 8 (ucast (buf ! (n * 2 - 2))) OR ucast (buf ! (n * 2 - 1)))"
    unfolding Let_def k_def [symmetric]
    using reach minimal stored k16
    by (simp only: fm_read_registers_up_to_eq [OF lt] n fm_read_registers_eq [OF k16] Let_def)
      simp
next
  assume "0x2 \<le> reg_index \<and> reg_index \<le> 0xF"
  then have lo: "2 \<le> reg_index" and hi: "reg_index \<le> 15" by simp_all
  have reach: "last (write_burst_regs 0x2 (reg_index - 1)) = reg_index"
    using lo by (simp add: write_burst_regs_eq)
  have minimal: "\<forall>m<reg_index - 1. reg_index \<notin> set (write_burst_regs 0x2 m)"
    by (auto simp: write_burst_regs_eq)
  show "let n = reg_index - 1;
            buf = encode_regs (regs r) 0x2 n
        in fm_write_registers_up_to r w reg_index =
             Return (i2c_ack w (trace w) buf = int (n * 2)) r (emit (I2C_write SI4703_ADDR buf) w) \<and>
           length buf = n * 2 \<and>
           last (write_burst_regs 0x2 n) = reg_index \<and>
           (\<forall>m<n. reg_index \<notin> set (write_burst_regs 0x2 m))"
    using reach minimal
    by (simp add: fm_write_registers_up_to_eq [OF lo hi] Let_def length_encode_regs)
qed

theorem register_bursts_are_minimal_witness:
  "(3 :: nat) < 16 \<and> (2 :: nat) \<le> 3 \<and> (3 :: nat) \<le> 15 \<and>
   fm_read_registers_up_to radio_up quiet_world CHANNEL =
     Return True (radio_up\<lparr>regs := store_regs (regs radio_up) 0xA (replicate 20 0)\<rparr>)
       (emit (I2C_read SI4703_ADDR 20) quiet_world) \<and>
   last (read_burst_regs 0xA 10) = CHANNEL \<and>
   CHANNEL \<notin> set (read_burst_regs 0xA 9) \<and>
   fm_write_registers_up_to radio_up quiet_world CHANNEL =
     Return True radio_up (emit (I2C_write SI4703_ADDR [0, 1, 0, 0]) quiet_world) \<and>
   last (write_burst_regs 0x2 2) = CHANNEL \<and>
   CHANNEL \<notin> set (write_burst_regs 0x2 1)"
proof -
  have e: "encode_regs (regs radio_up) 0x2 2 = [0, 1, 0, 0]"
    by (simp add: eval_nat_numeral radio_up_def ENABLE_BIT_def)
  have nine: "(9 :: nat) < 9 + 1" by simp
  have one: "(1 :: nat) < 3 - 1" by simp
  from register_bursts_are_minimal [of 3 quiet_world radio_up] e nine one
  show ?thesis
    by (simp add: Let_def quiet_world_def)
qed


subsection \<open>Volume\<close>

text \<open>
  C1. For every volume \<open>v\<close> in 0-30, on a powered-up handle with no task in flight,
  \<^verbatim>\<open>set_volume\<close> returns and \<^verbatim>\<open>get_volume\<close> then gives \<open>v\<close> back: 0-15 are stored as that
  level with the extension flag set, 16-30 as the levels 1-15 without it.
\<close>

theorem set_volume_get_volume_round_trip:
  assumes "fm_is_powered_up r" and "task (async r) = None" and "v \<le> 30"
  shows "\<exists>r' w'. set_volume r w v = Return () r' w' \<and> get_volume r' = v \<and>
           fm_get_volume r' = (if v < 16 then v else v - 15) \<and> fm_get_volext r' = (v < 16)"
proof (cases "v < 16")
  case True
  then have m: "min v FM_MAX_VOLUME = v"
    unfolding FM_MAX_VOLUME_def by (simp add: min_def word_less_nat_alt word_le_nat_alt)
  show ?thesis
    using assms True m
    by (simp add: set_volume_def fm_set_volume_def fm_write_registers_up_to_eq and_then_def
        get_volume_def fm_get_volume_def fm_get_volext_def Let_def)
next
  case False
  with assms(3) have b: "16 \<le> unat v" "unat v \<le> 30"
    by (simp_all add: word_less_nat_alt word_le_nat_alt)
  then have u: "unat (v - 15) = unat v - 15"
    by (simp add: unat_sub word_le_nat_alt)
  with b have m: "min (v - 15) FM_MAX_VOLUME = v - 15" and nz: "v - 15 \<noteq> 0"
    unfolding FM_MAX_VOLUME_def
    by (auto simp: min_def word_le_nat_alt unat_eq_zero [symmetric] simp del: unat_eq_zero)
  show ?thesis
    using assms False m nz
    by (simp add: set_volume_def fm_set_volume_def fm_write_registers_up_to_eq and_then_def
        get_volume_def fm_get_volume_def fm_get_volext_def Let_def)
qed

lemma radio_up_powered: "fm_is_powered_up radio_up"
  by (simp add: fm_is_powered_up_def radio_up_def fm_get_bit_def ENABLE_BIT_def)

lemma radio_up_idle: "task (async radio_up) = None"
  by (simp add: radio_up_def fm_init_def async_empty_def)

theorem set_volume_get_volume_round_trip_witness:
  "fm_is_powered_up radio_up \<and> task (async radio_up) = None \<and> (20 :: u8) \<le> 30 \<and>
   (\<exists>r' w'. set_volume radio_up quiet_world 20 = Return () r' w' \<and> get_volume r' = 20 \<and>
      fm_get_volume r' = 5 \<and> fm_get_volext r' = False)"
proof -
  have c: "(20 :: u8) \<le> 30" by simp
  show ?thesis
    using radio_up_powered radio_up_idle c
      set_volume_get_volume_round_trip [OF radio_up_powered radio_up_idle c, of quiet_world]
    by simp
qed

subsection \<open>The task slot\<close>

text \<open>
  C3. While the slot holds a task, \<^verbatim>\<open>fm_set_frequency_async\<close> and \<^verbatim>\<open>fm_seek_async\<close> stop
  at their assertion: the handle and the environment are as they were before the call, so
  no register was changed and nothing went over the bus. A call that starts a task
  therefore found the slot empty.
\<close>

theorem async_start_rejected_while_task_pending:
  assumes "task (async r) \<noteq> None"
  shows "fm_set_frequency_async r w f = Abort Assertion_failed r w \<and>
         fm_seek_async r w direction = Abort Assertion_failed r w"
  using assms by (simp add: fm_set_frequency_async_def fm_seek_async_def)

theorem async_start_rejected_while_task_pending_witness:
  "task (async radio_tuning) \<noteq> None \<and>
   fm_set_frequency_async radio_tuning quiet_world (956 / 10) =
     Abort Assertion_failed radio_tuning quiet_world \<and>
   fm_seek_async radio_tuning quiet_world FM_SEEK_UP =
     Abort Assertion_failed radio_tuning quiet_world"
proof -
  have a: "task (async radio_tuning) \<noteq> None"
    by (simp add: radio_tuning_def)
  show ?thesis
    using a async_start_rejected_while_task_pending [OF a, of quiet_world "956 / 10" FM_SEEK_UP]
    by simp
qed

text \<open>
  C4. When \<^verbatim>\<open>fm_async_task_tick\<close> is called with a task in the slot and the clock
  strictly before the slot's resume time, it returns \<open>done = false\<close> at once: the handle
  and the environment, and so the trace of bus transactions, are unchanged.
\<close>

theorem tick_before_resume_time_is_skipped:
  assumes "task (async r) \<noteq> None" and "time_us_64 w < resume_time (async r)"
  shows "fm_async_task_tick r w = Some (Return \<lparr>is_done = False, result = 0\<rparr> r w)"
  using assms by (auto simp: fm_async_task_tick_def split: option.splits)

theorem tick_before_resume_time_is_skipped_witness:
  "task (async radio_tuning) \<noteq> None \<and>
   time_us_64 quiet_world < resume_time (async radio_tuning) \<and>
   fm_async_task_tick radio_tuning quiet_world =
     Some (Return \<lparr>is_done = False, result = 0\<rparr> radio_tuning quiet_world)"
proof -
  have a: "task (async radio_tuning) \<noteq> None"
    by (simp add: radio_tuning_def)
  have b: "time_us_64 quiet_world < resume_time (async radio_tuning)"
    by (simp add: radio_tuning_def time_us_64_def quiet_world_def)
  show ?thesis
    using a b tick_before_resume_time_is_skipped [OF a b] by simp
qed

subsection \<open>Settings\<close>

text \<open>
  C10. On a powered-up handle with no task in flight, each setter called with the value
  the handle already caches returns at once, with the handle and the environment (and so
  the bus trace) unchanged: \<^verbatim>\<open>fm_set_mute\<close>, \<^verbatim>\<open>fm_set_softmute\<close>, \<^verbatim>\<open>fm_set_softmute_rate\<close>,
  \<^verbatim>\<open>fm_set_softmute_attenuation\<close>, \<^verbatim>\<open>fm_set_mono\<close>, \<^verbatim>\<open>fm_set_seek_sensitivity\<close>,
  \<^verbatim>\<open>fm_set_volume\<close> (when the volume clamped to 15 and the extension flag are the cached
  ones) and \<^verbatim>\<open>fm_set_frequency_blocking\<close>.
\<close>

theorem setters_return_early_on_cached_value:
  assumes "fm_is_powered_up r" and "task (async r) = None"
  shows "fm_set_mute r w (mute r) = Return () r w \<and>
         fm_set_softmute r w (softmute r) = Return () r w \<and>
         fm_set_softmute_rate r w (softmute_rate r) = Return () r w \<and>
         fm_set_softmute_attenuation r w (softmute_attenuation r) = Return () r w \<and>
         fm_set_mono r w (mono r) = Return () r w \<and>
         fm_set_seek_sensitivity r w (seek_sensitivity r) = Return () r w \<and>
         (min v FM_MAX_VOLUME = volume r \<longrightarrow> fm_set_volume r w v (volext r) = Return () r w) \<and>
         fm_set_frequency_blocking r w (frequency r) = Some (Return () r w)"
  using assms
  by (simp add: fm_set_mute_def fm_set_softmute_def fm_set_softmute_rate_def
      fm_set_softmute_attenuation_def fm_set_mono_def fm_set_seek_sensitivity_def
      fm_set_volume_def fm_set_frequency_blocking_def)

theorem setters_return_early_on_cached_value_witness:
  "fm_is_powered_up radio_loud \<and> task (async radio_loud) = None \<and>
   min 200 FM_MAX_VOLUME = volume radio_loud \<and>
   fm_set_mute radio_loud quiet_world True = Return () radio_loud quiet_world \<and>
   fm_set_softmute radio_loud quiet_world True = Return () radio_loud quiet_world \<and>
   fm_set_softmute_rate radio_loud quiet_world FM_SOFTMUTE_FASTEST =
     Return () radio_loud quiet_world \<and>
   fm_set_softmute_attenuation radio_loud quiet_world FM_SOFTMUTE_ATTENUATION_16 =
     Return () radio_loud quiet_world \<and>
   fm_set_mono radio_loud quiet_world False = Return () radio_loud quiet_world \<and>
   fm_set_seek_sensitivity radio_loud quiet_world FM_SEEK_SENSITIVITY_RECOMMENDED =
     Return () radio_loud quiet_world \<and>
   fm_set_volume radio_loud quiet_world 200 True = Return () radio_loud quiet_world \<and>
   fm_set_frequency_blocking radio_loud quiet_world 0 = Some (Return () radio_loud quiet_world)"
proof -
  have a: "fm_is_powered_up radio_loud"
    by (simp add: fm_is_powered_up_def radio_loud_def radio_up_def fm_get_bit_def ENABLE_BIT_def)
  have b: "task (async radio_loud) = None"
    by (simp add: radio_loud_def radio_up_def fm_init_def async_empty_def)
  have c: "min 200 FM_MAX_VOLUME = volume radio_loud"
    by (simp add: radio_loud_def FM_MAX_VOLUME_def)
  have f: "mute radio_loud = True" "softmute radio_loud = True"
    "softmute_rate radio_loud = FM_SOFTMUTE_FASTEST"
    "softmute_attenuation radio_loud = FM_SOFTMUTE_ATTENUATION_16"
    "mono radio_loud = False" "seek_sensitivity radio_loud = FM_SEEK_SENSITIVITY_RECOMMENDED"
    "volext radio_loud = True" "frequency radio_loud = 0"
    by (simp_all add: radio_loud_def radio_up_def fm_init_def)
  show ?thesis
    using a b c setters_return_early_on_cached_value [OF a b, of quiet_world 200]
    by (simp add: f)
qed

subsection \<open>Bits of the shadow registers\<close>

lemmas power_bits = ENABLE_BIT_def DISABLE_BIT_def DMUTE_BIT_def

lemma fm_get_bit_push_bit: "fm_get_bit x (push_bit n 1) = bit x n"
  unfolding fm_get_bit_def by (rule bit_iff_and_push_bit_not_eq_0 [symmetric])

lemma bit_fm_set_bit:
  "bit (fm_set_bit x (push_bit n 1) v) m = (if m = n \<and> n < 16 then v else bit x m)"
  by (auto simp: fm_set_bit_def bit_simps dest: bit_imp_le_length)

lemma encode_regs_1: "encode_regs rs p 1 = [ucast (drop_bit 8 (rs p)), ucast (rs p AND 0xFF)]"
  by (simp add: eval_nat_numeral)

lemma encode_regs_3:
  "encode_regs rs p 3 =
     [ucast (drop_bit 8 (rs p)), ucast (rs p AND 0xFF),
      ucast (drop_bit 8 (rs (p + 1))), ucast (rs (p + 1) AND 0xFF),
      ucast (drop_bit 8 (rs (p + 2))), ucast (rs (p + 2) AND 0xFF)]"
  by (simp add: eval_nat_numeral)

lemma get_named_bit:
  "fm_get_bit x ENABLE_BIT = bit x 0"
  "fm_get_bit x DISABLE_BIT = bit x 6"
  "fm_get_bit x SEEK_BIT = bit x 8"
  "fm_get_bit x DMUTE_BIT = bit x 14"
  "fm_get_bit x RDS_BIT = bit x 12"
  by (simp_all only: ENABLE_BIT_def DISABLE_BIT_def SEEK_BIT_def DMUTE_BIT_def RDS_BIT_def
      fm_get_bit_push_bit)

lemma set_named_bit:
  "bit (fm_set_bit x ENABLE_BIT v) n = (if n = 0 then v else bit x n)"
  "bit (fm_set_bit x DISABLE_BIT v) n = (if n = 6 then v else bit x n)"
  "bit (fm_set_bit x SEEK_BIT v) n = (if n = 8 then v else bit x n)"
  "bit (fm_set_bit x DMUTE_BIT v) n = (if n = 14 then v else bit x n)"
  "bit (fm_set_bit x RDS_BIT v) n = (if n = 12 then v else bit x n)"
  by (simp_all only: ENABLE_BIT_def DISABLE_BIT_def SEEK_BIT_def DMUTE_BIT_def RDS_BIT_def
      bit_fm_set_bit) simp_all

subsection \<open>Waking up\<close>

text \<open>
  On an Si4703 that was powered down, \<^verbatim>\<open>fm_power_up\<close> with the stored configuration
  writes twice: POWERCFG alone, then, after the 110 ms delay, the registers 0x2-0x4 with
  the RDS bit set in SYSCONFIG1.
\<close>

theorem power_up_wake_writes_twice:
  "\<not> fm_is_powered_up radio_asleep_si4703 \<and>
   fm_get_bit (regs radio_asleep_si4703 POWERCFG) DISABLE_BIT \<and>
   config radio_asleep_si4703 = cfg_usa \<and>
   fm_power_up radio_asleep_si4703 quiet_world cfg_usa =
     Some (Return ()
       (radio_asleep_si4703\<lparr>regs := (regs radio_asleep_si4703)(POWERCFG := 0x4001, SYSCONFIG1 := 0x1000)\<rparr>)
       (quiet_world\<lparr>trace :=
          [I2C_write SI4703_ADDR [0x40, 0x01], Sleep_ms 110,
           I2C_write SI4703_ADDR [0x40, 0x01, 0x00, 0x00, 0x10, 0x00]]\<rparr>))"
  by (simp add: fm_power_up_def fm_power_up_wake_def fm_is_powered_up_def fm_get_bit_def
      fm_set_bit_def radio_asleep_si4703_def fm_init_def cfg_usa_def ENABLE_BIT_def DISABLE_BIT_def
      DMUTE_BIT_def RDS_BIT_def set_reg_def fm_write_registers_up_to_eq and_then_def Let_def
      encode_regs_1 encode_regs_3 emit_def sleep_ms_def quiet_world_def fm_is_rds_supported_def
      fm_get_bits_def DEV_BITS_def DEV_LSB_def DEV_SI4703_def)


text \<open>
  C2 (amended). When \<^verbatim>\<open>fm_power_up\<close> is called on a handle that is not powered up, whose
  shadow of POWERCFG has DISABLE set and whose stored configuration equals the requested
  one, the wake path is taken: ENABLE is set, DISABLE cleared and DMUTE set to the
  opposite of the cached mute setting in the shadow; POWERCFG alone is written; 110 ms
  pass; then, only on a device with RDS, the RDS bit is set in the shadow of SYSCONFIG1
  and the registers 0x2-0x4 are written in a second burst. Nothing else of the handle
  changes, so the mute setting is the one from before.
\<close>

theorem power_up_wake_path:
  assumes "\<not> fm_is_powered_up r"
    and "fm_get_bit (regs r POWERCFG) DISABLE_BIT"
    and "config r = cfg"
  shows "\<exists>r' w'. fm_power_up r w cfg = Some (Return () r' w') \<and>
           w' = w\<lparr>trace := trace w @
                  [I2C_write SI4703_ADDR (encode_regs (regs r') 0x2 1), Sleep_ms 110] @
                  (if fm_is_rds_supported r
                   then [I2C_write SI4703_ADDR (encode_regs (regs r') 0x2 3)] else [])\<rparr> \<and>
           regs r' POWERCFG =
             fm_set_bit (fm_set_bit (fm_set_bit (regs r POWERCFG) ENABLE_BIT True) DISABLE_BIT False)
               DMUTE_BIT (\<not> mute r) \<and>
           regs r' SYSCONFIG1 =
             (if fm_is_rds_supported r then fm_set_bit (regs r SYSCONFIG1) RDS_BIT True
              else regs r SYSCONFIG1) \<and>
           (\<forall>i. i \<noteq> POWERCFG \<and> i \<noteq> SYSCONFIG1 \<longrightarrow> regs r' i = regs r i) \<and>
           r'\<lparr>regs := regs r\<rparr> = r \<and>
           fm_is_powered_up r' \<and>
           \<not> fm_get_bit (regs r' POWERCFG) DISABLE_BIT \<and>
           fm_get_bit (regs r' POWERCFG) DMUTE_BIT = (\<not> fm_get_mute r') \<and>
           fm_get_mute r' = fm_get_mute r"
proof -
  let ?pc = "fm_set_bit (fm_set_bit (fm_set_bit (regs r POWERCFG) ENABLE_BIT True) DISABLE_BIT False)
               DMUTE_BIT (\<not> mute r)"
  have bits: "fm_get_bit ?pc ENABLE_BIT" "\<not> fm_get_bit ?pc DISABLE_BIT"
    "fm_get_bit ?pc DMUTE_BIT = (\<not> mute r)"
    by (simp_all only: power_bits fm_get_bit_push_bit bit_fm_set_bit) simp_all
  show ?thesis
  proof (cases "fm_is_rds_supported r")
    case True
    then have rds: "fm_is_rds_supported (set_reg POWERCFG ?pc r)"
      by (simp add: fm_is_rds_supported_def set_reg_def)
    show ?thesis
      using assms True rds bits
      by (simp add: fm_power_up_def fm_power_up_wake_def set_reg_def fm_write_registers_up_to_eq
          and_then_def Let_def emit_def sleep_ms_def fm_is_powered_up_def fm_get_mute_def
          encode_regs_1 encode_regs_3)
  next
    case False
    then have rds: "\<not> fm_is_rds_supported (set_reg POWERCFG ?pc r)"
      by (simp add: fm_is_rds_supported_def set_reg_def)
    show ?thesis
      using assms False rds bits
      by (simp add: fm_power_up_def fm_power_up_wake_def set_reg_def fm_write_registers_up_to_eq
          and_then_def Let_def emit_def sleep_ms_def fm_is_powered_up_def fm_get_mute_def
          encode_regs_1)
  qed
qed


theorem power_up_wake_path_witness:
  "\<not> fm_is_powered_up radio_asleep_si4702 \<and>
   fm_get_bit (regs radio_asleep_si4702 POWERCFG) DISABLE_BIT \<and>
   config radio_asleep_si4702 = cfg_usa \<and>
   (\<exists>r' w'. fm_power_up radio_asleep_si4702 quiet_world cfg_usa = Some (Return () r' w') \<and>
      w' = quiet_world\<lparr>trace := [I2C_write SI4703_ADDR [0x40, 0x01], Sleep_ms 110]\<rparr> \<and>
      regs r' POWERCFG = 0x4001 \<and>
      fm_is_powered_up r' \<and>
      \<not> fm_get_bit (regs r' POWERCFG) DISABLE_BIT \<and>
      fm_get_bit (regs r' POWERCFG) DMUTE_BIT \<and>
      fm_get_mute r' = False)"
proof -
  have a: "\<not> fm_is_powered_up radio_asleep_si4702"
    by (simp add: fm_is_powered_up_def radio_asleep_si4702_def fm_get_bit_def power_bits)
  have b: "fm_get_bit (regs radio_asleep_si4702 POWERCFG) DISABLE_BIT"
    by (simp add: radio_asleep_si4702_def fm_get_bit_def power_bits)
  have c: "config radio_asleep_si4702 = cfg_usa"
    by (simp add: radio_asleep_si4702_def fm_init_def cfg_usa_def)
  have rds: "\<not> fm_is_rds_supported radio_asleep_si4702"
    by (simp add: fm_is_rds_supported_def radio_asleep_si4702_def fm_get_bits_def DEV_BITS_def
        DEV_LSB_def DEV_SI4703_def)
  have pc: "fm_set_bit (fm_set_bit (fm_set_bit (regs radio_asleep_si4702 POWERCFG) ENABLE_BIT True)
              DISABLE_BIT False) DMUTE_BIT (\<not> mute radio_asleep_si4702) = 0x4001"
    by (simp add: radio_asleep_si4702_def fm_set_bit_def power_bits)
  have m: "fm_get_mute radio_asleep_si4702 = False"
    by (simp add: fm_get_mute_def radio_asleep_si4702_def)
  from power_up_wake_path [OF a b c, of quiet_world] obtain r' w' where
    "fm_power_up radio_asleep_si4702 quiet_world cfg_usa = Some (Return () r' w')"
    "w' = quiet_world\<lparr>trace := trace quiet_world @
            [I2C_write SI4703_ADDR (encode_regs (regs r') 0x2 1), Sleep_ms 110]\<rparr>"
    "regs r' POWERCFG = 0x4001"
    "fm_is_powered_up r'" "\<not> fm_get_bit (regs r' POWERCFG) DISABLE_BIT"
    "fm_get_bit (regs r' POWERCFG) DMUTE_BIT = (\<not> fm_get_mute r')"
    "fm_get_mute r' = False"
    unfolding pc m using rds by auto
  then show ?thesis
    using a b c by (auto simp: quiet_world_def encode_regs_1)
qed

subsection \<open>The wait for STC\<close>

lemma store_regs_2:
  "length buf = 2 \<Longrightarrow>
   store_regs rs p buf = rs(p := push_bit 8 (ucast (buf ! 0)) OR ucast (buf ! 1))"
  by (cases buf; cases "tl buf") auto

lemma store_regs_4:
  "length buf = 4 \<Longrightarrow>
   store_regs rs 0xA buf =
     rs(0xA := push_bit 8 (ucast (buf ! 0)) OR ucast (buf ! 1),
        0xB := push_bit 8 (ucast (buf ! 2)) OR ucast (buf ! 3))"
  by (cases buf; cases "tl buf"; cases "tl (tl buf)"; cases "tl (tl (tl buf))") auto

lemma read_status_eq:
  "fm_read_registers_up_to r w STATUSRSSI =
     (let buf = i2c_reply w (trace w) 2
      in Return (length buf = 2)
           (if length buf = 2
            then r\<lparr>regs := (regs r)(STATUSRSSI := push_bit 8 (ucast (buf ! 0)) OR ucast (buf ! 1))\<rparr>
            else r)
           (emit (I2C_read SI4703_ADDR 2) w))"
  by (simp add: fm_read_registers_up_to_def fm_read_registers_eq Let_def store_regs_2)

lemma read_readchan_eq:
  "fm_read_registers_up_to r w READCHAN =
     (let buf = i2c_reply w (trace w) 4
      in Return (length buf = 4)
           (if length buf = 4
            then r\<lparr>regs := (regs r)
                   (STATUSRSSI := push_bit 8 (ucast (buf ! 0)) OR ucast (buf ! 1),
                    READCHAN := push_bit 8 (ucast (buf ! 2)) OR ucast (buf ! 3))\<rparr>
            else r)
           (emit (I2C_read SI4703_ADDR 4) w))"
  by (simp add: fm_read_registers_up_to_def fm_read_registers_eq Let_def store_regs_4)

text \<open>
  Whenever the wait loop returns, it has only read STATUSRSSI, one or more times, the
  shadow of STATUSRSSI has STC clear, and nothing else of the handle has changed.
\<close>

lemma fm_wait_stc_cleared_post:
  assumes "fm_wait_stc_cleared r w = Some y"
  shows "\<exists>rs j. y = Return () (r\<lparr>regs := rs\<rparr>) (w\<lparr>trace := trace w @ status_reads (Suc j)\<rparr>) \<and>
           \<not> fm_get_bit (rs STATUSRSSI) STC_BIT \<and>
           (\<forall>i. i \<noteq> STATUSRSSI \<longrightarrow> rs i = regs r i)"
  using assms
proof (induction r w y rule: fm_wait_stc_cleared.raw_induct [rotated 1, consumes 1, case_names step])
  case (step f r w y)
  let ?buf = "i2c_reply w (trace w) 2"
  let ?rs1 = "if length ?buf = 2
              then (regs r)(STATUSRSSI := push_bit 8 (ucast (?buf ! 0)) OR ucast (?buf ! 1))
              else regs r"
  let ?w1 = "emit (I2C_read SI4703_ADDR 2) w"
  have rd: "fm_read_registers_up_to r w STATUSRSSI = Return (length ?buf = 2) (r\<lparr>regs := ?rs1\<rparr>) ?w1"
    by (simp add: read_status_eq Let_def)
  show ?case
  proof (cases "fm_get_bit (?rs1 STATUSRSSI) STC_BIT")
    case True
    with step(2) have "f (r\<lparr>regs := ?rs1\<rparr>) ?w1 = Some y"
      unfolding rd by simp
    from step(1) [OF this] obtain rs j where
      y: "y = Return () (r\<lparr>regs := ?rs1, regs := rs\<rparr>) (?w1\<lparr>trace := trace ?w1 @ status_reads (Suc j)\<rparr>)"
      and stc: "\<not> fm_get_bit (rs STATUSRSSI) STC_BIT"
      and frame: "\<forall>i. i \<noteq> STATUSRSSI \<longrightarrow> rs i = regs (r\<lparr>regs := ?rs1\<rparr>) i"
      by blast
    have "\<forall>i. i \<noteq> STATUSRSSI \<longrightarrow> rs i = regs r i"
      using frame by simp
    moreover have "y = Return () (r\<lparr>regs := rs\<rparr>) (w\<lparr>trace := trace w @ status_reads (Suc (Suc j))\<rparr>)"
      using y by (simp add: emit_def status_reads_def)
    ultimately show ?thesis
      using stc by blast
  next
    case False
    with step(2) have y: "y = Return () (r\<lparr>regs := ?rs1\<rparr>) ?w1"
      unfolding rd by simp
    have "y = Return () (r\<lparr>regs := ?rs1\<rparr>) (w\<lparr>trace := trace w @ status_reads (Suc 0)\<rparr>)"
      using y by (simp add: emit_def status_reads_def)
    moreover have "\<forall>i. i \<noteq> STATUSRSSI \<longrightarrow> ?rs1 i = regs r i" by simp
    ultimately show ?thesis
      using False by blast
  qed
qed

text \<open>
  If the chip reports STC clear at the read after \<open>k\<close> others, the wait loop returns
  after at most \<open>k + 1\<close> reads.
\<close>

lemma fm_wait_stc_cleared_returns:
  "stc_clear_after k (trace w) w \<Longrightarrow>
   \<exists>r' j. j \<le> k \<and>
     fm_wait_stc_cleared r w = Some (Return () r' (w\<lparr>trace := trace w @ status_reads (Suc j)\<rparr>))"
proof (induction k arbitrary: r w)
  case 0
  then show ?case
    by (subst fm_wait_stc_cleared.simps)
      (simp add: stc_clear_after_def read_status_eq Let_def emit_def status_reads_def)
next
  case (Suc k)
  let ?buf = "i2c_reply w (trace w) 2"
  let ?r1 = "if length ?buf = 2
            then r\<lparr>regs := (regs r)(STATUSRSSI := push_bit 8 (ucast (?buf ! 0)) OR ucast (?buf ! 1))\<rparr>
            else r"
  let ?w1 = "emit (I2C_read SI4703_ADDR 2) w"
  show ?case
  proof (cases "fm_get_bit (regs ?r1 STATUSRSSI) STC_BIT")
    case True
    from Suc.prems have "stc_clear_after k (trace ?w1) ?w1"
      by (simp add: stc_clear_after_def emit_def status_reads_def replicate_app_Cons_same)
    from Suc.IH [OF this, of ?r1] obtain r' j where j: "j \<le> k"
      and eq: "fm_wait_stc_cleared ?r1 ?w1 =
                 Some (Return () r' (?w1\<lparr>trace := trace ?w1 @ status_reads (Suc j)\<rparr>))"
      by blast
    have "fm_wait_stc_cleared r w =
            Some (Return () r' (w\<lparr>trace := trace w @ status_reads (Suc (Suc j))\<rparr>))"
      using True eq
      by (subst fm_wait_stc_cleared.simps)
        (simp add: read_status_eq Let_def emit_def status_reads_def split: if_splits)
    with j show ?thesis by (intro exI [of _ r'] exI [of _ "Suc j"]) simp
  next
    case False
    then have "fm_wait_stc_cleared r w =
            Some (Return () ?r1 (w\<lparr>trace := trace w @ status_reads (Suc 0)\<rparr>))"
      by (subst fm_wait_stc_cleared.simps)
        (simp add: read_status_eq Let_def emit_def status_reads_def split: if_splits)
    then show ?thesis by (intro exI [of _ ?r1] exI [of _ 0]) simp
  qed
qed

subsection \<open>The end of a task\<close>

lemma fm_task_read_channel_eq:
  "fm_task_read_channel res r w =
     (let buf = i2c_reply w (trace w) 4;
          rs = (if length buf = 4
                then (regs r)
                   (STATUSRSSI := push_bit 8 (ucast (buf ! 0)) OR ucast (buf ! 1),
                    READCHAN := push_bit 8 (ucast (buf ! 2)) OR ucast (buf ! 3))
                else regs r)
      in Return \<lparr>is_done = True, result = res\<rparr>
           (r\<lparr>frequency := fm_channel_to_frequency
                  (fm_get_bits (rs READCHAN) READCHAN_BITS READCHAN_LSB) (fm_get_frequency_range r),
              regs := rs\<rparr>)
           (emit (I2C_read SI4703_ADDR 4) w))"
  by (simp add: fm_task_read_channel_def read_readchan_eq and_then_def Let_def
      fm_get_frequency_range_def)

lemma fm_async_task_finish_eq:
  "2 \<le> reg \<Longrightarrow> reg \<le> 15 \<Longrightarrow>
   fm_async_task_finish reg b res r w =
     and_then_opt
       (fm_wait_stc_cleared (set_reg reg (fm_set_bit (regs r reg) b False) r) (emit (stop_write reg b r) w))
       (\<lambda>u r3 w3. Some (fm_task_read_channel res r3 w3))"
  by (simp add: fm_async_task_finish_def fm_write_registers_up_to_eq Let_def stop_write_def
      set_reg_def)

lemma fm_async_task_finish_from_wait:
  assumes "2 \<le> reg" and "reg \<le> 9"
    and "fm_wait_stc_cleared (set_reg reg (fm_set_bit (regs r reg) b False) r)
           (emit (stop_write reg b r) w) =
         Some (Return () (r\<lparr>regs := rs1\<rparr>)
           (w\<lparr>trace := trace w @ [stop_write reg b r] @ status_reads (Suc j)\<rparr>))"
    and "\<forall>i. i \<noteq> STATUSRSSI \<longrightarrow> rs1 i = ((regs r)(reg := fm_set_bit (regs r reg) b False)) i"
  shows "\<exists>rs fq.
           fm_async_task_finish reg b res r w =
             Some (Return \<lparr>is_done = True, result = res\<rparr> (r\<lparr>frequency := fq, regs := rs\<rparr>)
                 (w\<lparr>trace := trace w @ [stop_write reg b r] @ status_reads (Suc j) @
                                [I2C_read SI4703_ADDR 4]\<rparr>)) \<and>
           rs reg = fm_set_bit (regs r reg) b False \<and>
           (\<forall>i. i \<noteq> reg \<and> i \<noteq> STATUSRSSI \<and> i \<noteq> READCHAN \<longrightarrow> rs i = regs r i)"
proof -
  let ?w2 = "w\<lparr>trace := trace w @ [stop_write reg b r] @ status_reads (Suc j)\<rparr>"
  let ?buf = "i2c_reply ?w2 (trace ?w2) 4"
  let ?rs = "if length ?buf = 4
             then rs1(STATUSRSSI := push_bit 8 (ucast (?buf ! 0)) OR ucast (?buf ! 1),
                      READCHAN := push_bit 8 (ucast (?buf ! 2)) OR ucast (?buf ! 3))
             else rs1"
  let ?fq = "fm_channel_to_frequency (fm_get_bits (?rs READCHAN) READCHAN_BITS READCHAN_LSB)
               (fm_get_frequency_range r)"
  have "fm_async_task_finish reg b res r w =
          Some (Return \<lparr>is_done = True, result = res\<rparr> (r\<lparr>frequency := ?fq, regs := ?rs\<rparr>)
              (w\<lparr>trace := trace w @ [stop_write reg b r] @ status_reads (Suc j) @
                             [I2C_read SI4703_ADDR 4]\<rparr>))"
  proof -
    from assms(2) have "reg \<le> 15" by simp
    from fm_async_task_finish_eq [OF assms(1) this]
    have "fm_async_task_finish reg b res r w = Some (fm_task_read_channel res (r\<lparr>regs := rs1\<rparr>) ?w2)"
      by (simp only: assms(3) and_then_opt_def option.case outcome.case)
    then show ?thesis
      by (simp add: fm_task_read_channel_eq Let_def emit_def fm_get_frequency_range_def)
  qed
  moreover have "?rs reg = fm_set_bit (regs r reg) b False"
    using assms(1,2,4) by simp
  moreover have "\<forall>i. i \<noteq> reg \<and> i \<noteq> STATUSRSSI \<and> i \<noteq> READCHAN \<longrightarrow> ?rs i = regs r i"
    using assms(4) by simp
  ultimately show ?thesis
    by (intro exI [of _ ?rs] exI [of _ ?fq]) blast
qed

text \<open>
  Whenever the end of a task returns: it has written the registers up to \<open>reg\<close> with the
  start bit cleared, read STATUSRSSI one or more times and then STATUSRSSI and READCHAN
  once; it reports done with \<open>res\<close>; of the handle only the frequency and the shadows of
  \<open>reg\<close>, STATUSRSSI and READCHAN have changed.
\<close>

lemma fm_async_task_finish_post:
  assumes "2 \<le> reg" and "reg \<le> 9" and "fm_async_task_finish reg b res r w = Some y"
  shows "\<exists>rs fq j.
           y = Return \<lparr>is_done = True, result = res\<rparr> (r\<lparr>frequency := fq, regs := rs\<rparr>)
                 (w\<lparr>trace := trace w @ [stop_write reg b r] @ status_reads (Suc j) @
                                [I2C_read SI4703_ADDR 4]\<rparr>) \<and>
           rs reg = fm_set_bit (regs r reg) b False \<and>
           (\<forall>i. i \<noteq> reg \<and> i \<noteq> STATUSRSSI \<and> i \<noteq> READCHAN \<longrightarrow> rs i = regs r i)"
proof -
  let ?r1 = "set_reg reg (fm_set_bit (regs r reg) b False) r"
  let ?w1 = "emit (stop_write reg b r) w"
  from assms have fin: "and_then_opt (fm_wait_stc_cleared ?r1 ?w1)
       (\<lambda>u r3 w3. Some (fm_task_read_channel res r3 w3)) = Some y"
    by (simp add: fm_async_task_finish_eq)
  then obtain y1 where w1: "fm_wait_stc_cleared ?r1 ?w1 = Some y1"
    by (cases "fm_wait_stc_cleared ?r1 ?w1") (simp_all add: and_then_opt_def)
  from fm_wait_stc_cleared_post [OF w1] obtain rs1 j where
    y1: "y1 = Return () (?r1\<lparr>regs := rs1\<rparr>) (?w1\<lparr>trace := trace ?w1 @ status_reads (Suc j)\<rparr>)"
    and frame: "\<forall>i. i \<noteq> STATUSRSSI \<longrightarrow> rs1 i = regs ?r1 i"
    by blast
  have w1': "fm_wait_stc_cleared ?r1 ?w1 =
         Some (Return () (r\<lparr>regs := rs1\<rparr>)
           (w\<lparr>trace := trace w @ [stop_write reg b r] @ status_reads (Suc j)\<rparr>))"
    unfolding w1 y1 by (simp add: set_reg_def emit_def)
  have frame': "\<forall>i. i \<noteq> STATUSRSSI \<longrightarrow> rs1 i = ((regs r)(reg := fm_set_bit (regs r reg) b False)) i"
    using frame by (simp add: set_reg_def)
  from fm_async_task_finish_from_wait [OF assms(1,2) w1' frame', of res] assms(3)
  show ?thesis by auto
qed

text \<open>
  If the chip reports STC clear at the status read after \<open>k\<close> others, the end of a task
  returns after at most \<open>k + 1\<close> status reads.
\<close>

lemma fm_async_task_finish_returns:
  assumes "2 \<le> reg" and "reg \<le> 9" and "stc_clear_after k (trace w @ [stop_write reg b r]) w"
  shows "\<exists>rs fq j. j \<le> k \<and>
           fm_async_task_finish reg b res r w =
             Some (Return \<lparr>is_done = True, result = res\<rparr> (r\<lparr>frequency := fq, regs := rs\<rparr>)
                 (w\<lparr>trace := trace w @ [stop_write reg b r] @ status_reads (Suc j) @
                                [I2C_read SI4703_ADDR 4]\<rparr>)) \<and>
           rs reg = fm_set_bit (regs r reg) b False \<and>
           (\<forall>i. i \<noteq> reg \<and> i \<noteq> STATUSRSSI \<and> i \<noteq> READCHAN \<longrightarrow> rs i = regs r i)"
proof -
  let ?r1 = "set_reg reg (fm_set_bit (regs r reg) b False) r"
  let ?w1 = "emit (stop_write reg b r) w"
  from assms(3) have "stc_clear_after k (trace ?w1) ?w1"
    by (simp add: stc_clear_after_def emit_def)
  from fm_wait_stc_cleared_returns [OF this, of ?r1] obtain r3 j where j: "j \<le> k"
    and w1: "fm_wait_stc_cleared ?r1 ?w1 =
               Some (Return () r3 (?w1\<lparr>trace := trace ?w1 @ status_reads (Suc j)\<rparr>))"
    by blast
  from fm_wait_stc_cleared_post [OF w1] obtain rs1 where
    r3: "r3 = ?r1\<lparr>regs := rs1\<rparr>"
    and frame: "\<forall>i. i \<noteq> STATUSRSSI \<longrightarrow> rs1 i = regs ?r1 i"
    by auto
  have w1': "fm_wait_stc_cleared ?r1 ?w1 =
         Some (Return () (r\<lparr>regs := rs1\<rparr>)
           (w\<lparr>trace := trace w @ [stop_write reg b r] @ status_reads (Suc j)\<rparr>))"
    unfolding w1 r3 by (simp add: set_reg_def emit_def)
  have frame': "\<forall>i. i \<noteq> STATUSRSSI \<longrightarrow> rs1 i = ((regs r)(reg := fm_set_bit (regs r reg) b False)) i"
    using frame by (simp add: set_reg_def)
  from fm_async_task_finish_from_wait [OF assms(1,2) w1' frame', of res] j
  show ?thesis by blast
qed


subsection \<open>Cancelling a task\<close>

lemma task_start_reg_range: "2 \<le> task_start_reg t \<and> task_start_reg t \<le> 9"
  by (cases t) simp_all

lemma run_task_cancel_eq:
  "task (async r) = Some t \<Longrightarrow> state (async r) = 1 \<Longrightarrow>
   run_task t r w True = fm_async_task_finish (task_start_reg t) (task_start_bit t) (- 1) r w"
  by (cases t) (simp_all add: fm_set_frequency_async_task_def fm_seek_async_task_def)

text \<open>
  Whenever \<^verbatim>\<open>fm_async_task_cancel\<close> returns, the slot is empty, the task has stopped the
  chip, waited for STC and read the channel back, and of the handle only the slot, the
  frequency and the shadows of the start register, STATUSRSSI and READCHAN have changed.
\<close>

lemma fm_async_task_cancel_post:
  assumes "fm_async_task_cancel r w = Some (Return u r' w')"
  shows "\<exists>t rs fq j. task (async r) = Some t \<and>
           r' = r\<lparr>frequency := fq, regs := rs, async := async_empty\<rparr> \<and>
           w' = w\<lparr>trace := trace w @ [task_stop_write t r] @ status_reads (Suc j) @
                               [I2C_read SI4703_ADDR 4]\<rparr> \<and>
           rs (task_start_reg t) = fm_set_bit (regs r (task_start_reg t)) (task_start_bit t) False \<and>
           (\<forall>i. i \<noteq> task_start_reg t \<and> i \<noteq> STATUSRSSI \<and> i \<noteq> READCHAN \<longrightarrow> rs i = regs r i)"
proof -
  from assms obtain t where t: "task (async r) = Some t"
    by (cases "task (async r)") (simp_all add: fm_async_task_cancel_def)
  with assms obtain p r1 w1 where run: "run_task t r w True = Some (Return p r1 w1)"
    and r': "r' = r1\<lparr>async := async_empty\<rparr>" and w': "w' = w1"
    by (auto simp: fm_async_task_cancel_def and_then_opt_def split: option.splits outcome.splits)
  have st: "state (async r) = 1"
  proof (rule ccontr)
    assume "state (async r) \<noteq> 1"
    with t run show False
      by (cases t) (simp_all add: fm_set_frequency_async_task_def fm_seek_async_task_def)
  qed
  from run have "fm_async_task_finish (task_start_reg t) (task_start_bit t) (- 1) r w =
      Some (Return p r1 w1)"
    by (simp add: run_task_cancel_eq [OF t st])
  from fm_async_task_finish_post [OF _ _ this] task_start_reg_range [of t]
  obtain rs fq j where
    "r1 = r\<lparr>frequency := fq, regs := rs\<rparr>"
    "w1 = w\<lparr>trace := trace w @ [stop_write (task_start_reg t) (task_start_bit t) r] @
                        status_reads (Suc j) @ [I2C_read SI4703_ADDR 4]\<rparr>"
    "rs (task_start_reg t) = fm_set_bit (regs r (task_start_reg t)) (task_start_bit t) False"
    "\<forall>i. i \<noteq> task_start_reg t \<and> i \<noteq> STATUSRSSI \<and> i \<noteq> READCHAN \<longrightarrow> rs i = regs r i"
    by auto
  with t r' w' show ?thesis
    by (auto simp: task_stop_write_def)
qed

text \<open>
  With a task in the slot (in the state the start calls leave it in) and a chip that
  reports STC clear at the status read after \<open>k\<close> others, \<^verbatim>\<open>fm_async_task_cancel\<close>
  returns.
\<close>

lemma fm_async_task_cancel_returns:
  assumes "task (async r) = Some t" and "state (async r) = 1"
    and "stc_clear_after k (trace w @ [task_stop_write t r]) w"
  shows "\<exists>r' j. j \<le> k \<and>
           fm_async_task_cancel r w =
             Some (Return () r'
               (w\<lparr>trace := trace w @ [task_stop_write t r] @ status_reads (Suc j) @
                              [I2C_read SI4703_ADDR 4]\<rparr>))"
proof -
  from assms(3) task_start_reg_range [of t]
    fm_async_task_finish_returns [of "task_start_reg t" k w "task_start_bit t" r "- 1"]
  obtain rs fq j where "j \<le> k"
    "fm_async_task_finish (task_start_reg t) (task_start_bit t) (- 1) r w =
       Some (Return \<lparr>is_done = True, result = - 1\<rparr> (r\<lparr>frequency := fq, regs := rs\<rparr>)
           (w\<lparr>trace := trace w @ [task_stop_write t r] @ status_reads (Suc j) @
                          [I2C_read SI4703_ADDR 4]\<rparr>))"
    by (auto simp: task_stop_write_def)
  then show ?thesis
    using assms(1,2)
    by (auto simp: fm_async_task_cancel_def and_then_opt_def run_task_cancel_eq)
qed


lemma powered_up_after_stop:
  assumes "rs (task_start_reg t) = fm_set_bit (regs r (task_start_reg t)) (task_start_bit t) False"
    and "\<forall>i. i \<noteq> task_start_reg t \<and> i \<noteq> STATUSRSSI \<and> i \<noteq> READCHAN \<longrightarrow> rs i = regs r i"
  shows "fm_get_bit (rs POWERCFG) ENABLE_BIT = fm_get_bit (regs r POWERCFG) ENABLE_BIT"
proof (cases t)
  case Set_frequency_async_task
  with assms(2) show ?thesis by simp
next
  case Seek_async_task
  with assms(1) have "rs POWERCFG = fm_set_bit (regs r POWERCFG) SEEK_BIT False" by simp
  then show ?thesis
    by (simp only: ENABLE_BIT_def SEEK_BIT_def fm_get_bit_push_bit bit_fm_set_bit) simp
qed

lemma encode_regs_2:
  "encode_regs rs p 2 =
     [ucast (drop_bit 8 (rs p)), ucast (rs p AND 0xFF),
      ucast (drop_bit 8 (rs (p + 1))), ucast (rs (p + 1) AND 0xFF)]"
  by (simp add: eval_nat_numeral)

lemma rnd32_0: "rnd32 0 = 0"
  by (simp add: rnd32_def round_half_even_def)

lemma roundf_0: "roundf 0 = 0"
  by (simp add: roundf_def floor_eq_iff)

lemma fm_frequency_to_channel_bottom: "fm_frequency_to_channel (bottom rng) rng = Some 0"
  by (simp add: fm_frequency_to_channel_def fsub_def fdiv_def rnd32_0 roundf_0 float_to_u16_def)

lemma quiet_world_stc_clear: "stc_clear_after k tr quiet_world"
  by (simp add: stc_clear_after_def quiet_world_def fm_get_bit_def)

text \<open>
  C5. \<^verbatim>\<open>fm_async_task_cancel\<close> calls the task routine in the slot with \<open>cancel = true\<close> and
  then empties the slot, whatever the routine reported: whenever the call returns, the
  slot is empty. With a task in the slot of a powered-up handle and a chip that clears
  STC, the call does return, after the stop write, at most \<open>k + 1\<close> status reads and the
  read of the channel; the handle is still powered up, and \<^verbatim>\<open>fm_seek_async\<close> and
  \<^verbatim>\<open>fm_set_frequency_async\<close> (for a frequency whose channel fits 16 bits) start a new task
  at once.
\<close>

theorem cancel_leaves_slot_empty:
  assumes "task (async r) = Some t" and "state (async r) = 1" and "fm_is_powered_up r"
    and "stc_clear_after k (trace w @ [task_stop_write t r]) w"
  shows "fm_async_task_cancel r w =
           and_then_opt (run_task t r w True)
             (\<lambda>progress r1 w1. Some (Return () (r1\<lparr>async := async_empty\<rparr>) w1)) \<and>
         (\<exists>r' w' j. j \<le> k \<and> fm_async_task_cancel r w = Some (Return () r' w') \<and>
            trace w' = trace w @ [task_stop_write t r] @ status_reads (Suc j) @
                         [I2C_read SI4703_ADDR 4] \<and>
            async r' = async_empty \<and>
            r'\<lparr>frequency := frequency r, regs := regs r, async := async r\<rparr> = r \<and>
            fm_is_powered_up r' \<and>
            (\<exists>r'' w''. fm_seek_async r' w' direction = Return () r'' w'' \<and>
               task (async r'') = Some Seek_async_task) \<and>
            (fm_frequency_to_channel f (fm_get_frequency_range r') \<noteq> None \<longrightarrow>
               (\<exists>r'' w''. fm_set_frequency_async r' w' f = Return () r'' w'' \<and>
                  task (async r'') = Some Set_frequency_async_task))) \<and>
         (fm_async_task_cancel r0 w0 = Some (Return u r1 w1) \<longrightarrow> async r1 = async_empty)"
proof (intro conjI impI)
  show "fm_async_task_cancel r w =
          and_then_opt (run_task t r w True)
            (\<lambda>progress r1 w1. Some (Return () (r1\<lparr>async := async_empty\<rparr>) w1))"
    using assms(1) by (simp add: fm_async_task_cancel_def)
next
  assume "fm_async_task_cancel r0 w0 = Some (Return u r1 w1)"
  from fm_async_task_cancel_post [OF this] show "async r1 = async_empty" by auto
next
  from fm_async_task_cancel_returns [OF assms(1,2,4)] obtain r' j where j: "j \<le> k"
    and c: "fm_async_task_cancel r w =
             Some (Return () r'
               (w\<lparr>trace := trace w @ [task_stop_write t r] @ status_reads (Suc j) @
                              [I2C_read SI4703_ADDR 4]\<rparr>))"
    by blast
  let ?w' = "w\<lparr>trace := trace w @ [task_stop_write t r] @ status_reads (Suc j) @
                              [I2C_read SI4703_ADDR 4]\<rparr>"
  from fm_async_task_cancel_post [OF c] assms(1) obtain rs fq where
    r': "r' = r\<lparr>frequency := fq, regs := rs, async := async_empty\<rparr>"
    and rs: "rs (task_start_reg t) = fm_set_bit (regs r (task_start_reg t)) (task_start_bit t) False"
      "\<forall>i. i \<noteq> task_start_reg t \<and> i \<noteq> STATUSRSSI \<and> i \<noteq> READCHAN \<longrightarrow> rs i = regs r i"
    by auto
  have up: "fm_is_powered_up r'"
    using assms(3) powered_up_after_stop [OF rs] by (simp add: fm_is_powered_up_def r')
  have idle: "task (async r') = None"
    by (simp add: r' async_empty_def)
  have seek: "\<exists>r'' w''. fm_seek_async r' ?w' direction = Return () r'' w'' \<and>
      task (async r'') = Some Seek_async_task"
    using up idle
    by (simp add: fm_seek_async_def Let_def fm_write_registers_up_to_eq and_then_def set_reg_def)
  have tune: "\<exists>r'' w''. fm_set_frequency_async r' ?w' f = Return () r'' w'' \<and>
      task (async r'') = Some Set_frequency_async_task"
    if "fm_frequency_to_channel f (fm_get_frequency_range r') \<noteq> None"
    using up idle that
    by (auto simp: fm_set_frequency_async_def Let_def fm_write_registers_up_to_eq and_then_def
        set_reg_def)
  show "\<exists>r' w' j. j \<le> k \<and> fm_async_task_cancel r w = Some (Return () r' w') \<and>
            trace w' = trace w @ [task_stop_write t r] @ status_reads (Suc j) @
                         [I2C_read SI4703_ADDR 4] \<and>
            async r' = async_empty \<and>
            r'\<lparr>frequency := frequency r, regs := regs r, async := async r\<rparr> = r \<and>
            fm_is_powered_up r' \<and>
            (\<exists>r'' w''. fm_seek_async r' w' direction = Return () r'' w'' \<and>
               task (async r'') = Some Seek_async_task) \<and>
            (fm_frequency_to_channel f (fm_get_frequency_range r') \<noteq> None \<longrightarrow>
               (\<exists>r'' w''. fm_set_frequency_async r' w' f = Return () r'' w'' \<and>
                  task (async r'') = Some Set_frequency_async_task))"
    using j c up seek tune
    by (intro exI [of _ r'] exI [of _ ?w'] exI [of _ j]) (simp add: r')
qed


theorem cancel_leaves_slot_empty_witness:
  "task (async radio_tuning) = Some Set_frequency_async_task \<and>
   state (async radio_tuning) = 1 \<and>
   fm_is_powered_up radio_tuning \<and>
   stc_clear_after 0 (trace quiet_world @ [task_stop_write Set_frequency_async_task radio_tuning])
     quiet_world \<and>
   (\<exists>r' w'. fm_async_task_cancel radio_tuning quiet_world = Some (Return () r' w') \<and>
      trace w' = [I2C_write SI4703_ADDR [0, 1, 0, 0], I2C_read SI4703_ADDR 2, I2C_read SI4703_ADDR 4] \<and>
      async r' = async_empty \<and>
      fm_is_powered_up r' \<and>
      (\<exists>r'' w''. fm_seek_async r' w' FM_SEEK_UP = Return () r'' w'' \<and>
         task (async r'') = Some Seek_async_task) \<and>
      (\<exists>r'' w''. fm_set_frequency_async r' w' (175 / 2) = Return () r'' w'' \<and>
         task (async r'') = Some Set_frequency_async_task))"
proof -
  have a: "task (async radio_tuning) = Some Set_frequency_async_task"
    and b: "state (async radio_tuning) = 1"
    by (simp_all add: radio_tuning_def)
  have c: "fm_is_powered_up radio_tuning"
    using radio_up_powered by (simp add: radio_tuning_def fm_is_powered_up_def)
  have d: "stc_clear_after 0
      (trace quiet_world @ [task_stop_write Set_frequency_async_task radio_tuning]) quiet_world"
    by (rule quiet_world_stc_clear)
  have stop: "task_stop_write Set_frequency_async_task radio_tuning = I2C_write SI4703_ADDR [0, 1, 0, 0]"
    by (simp add: task_stop_write_def stop_write_def radio_tuning_def radio_up_def fm_set_bit_def
        TUNE_BIT_def ENABLE_BIT_def encode_regs_2)
  have tr: "trace quiet_world = []"
    by (simp add: quiet_world_def)
  from cancel_leaves_slot_empty [OF a b c d, of FM_SEEK_UP "175 / 2", THEN conjunct2, THEN conjunct1]
  obtain r' w' j where j: "j \<le> 0"
    and res: "fm_async_task_cancel radio_tuning quiet_world = Some (Return () r' w')"
    and trace: "trace w' = trace quiet_world @
        [task_stop_write Set_frequency_async_task radio_tuning] @ status_reads (Suc j) @
        [I2C_read SI4703_ADDR 4]"
    and slot: "async r' = async_empty"
    and same: "r'\<lparr>frequency := frequency radio_tuning, regs := regs radio_tuning,
                  async := async radio_tuning\<rparr> = radio_tuning"
    and up: "fm_is_powered_up r'"
    and seek: "\<exists>r'' w''. fm_seek_async r' w' FM_SEEK_UP = Return () r'' w'' \<and>
        task (async r'') = Some Seek_async_task"
    and tune: "fm_frequency_to_channel (175 / 2) (fm_get_frequency_range r') \<noteq> None \<longrightarrow>
        (\<exists>r'' w''. fm_set_frequency_async r' w' (175 / 2) = Return () r'' w'' \<and>
           task (async r'') = Some Set_frequency_async_task)"
    by blast
  from same have "config (r'\<lparr>frequency := frequency radio_tuning, regs := regs radio_tuning,
                  async := async radio_tuning\<rparr>) = config radio_tuning"
    by (rule arg_cong)
  then have "bottom (fm_get_frequency_range r') = 175 / 2"
    by (simp add: fm_get_frequency_range_def fm_frequency_range_def radio_tuning_def radio_up_def
        fm_init_def)
  with fm_frequency_to_channel_bottom [of "fm_get_frequency_range r'"]
  have "fm_frequency_to_channel (175 / 2) (fm_get_frequency_range r') \<noteq> None"
    by simp
  with tune have tune': "\<exists>r'' w''. fm_set_frequency_async r' w' (175 / 2) = Return () r'' w'' \<and>
           task (async r'') = Some Set_frequency_async_task"
    by blast
  from j trace have "trace w' =
      [I2C_write SI4703_ADDR [0, 1, 0, 0], I2C_read SI4703_ADDR 2, I2C_read SI4703_ADDR 4]"
    by (simp add: stop tr status_reads_def)
  with a b c d res slot up seek tune' show ?thesis
    by blast
qed


subsection \<open>The seek task\<close>

text \<open>
  C6. With the seek task in the slot, \<^verbatim>\<open>fm_seek_async_task\<close> never stops the program:
  whenever it returns, it returns a progress value, done exactly when it was cancelled or
  saw STC set after its read, with result -1 when it was cancelled or saw STC and SFBL
  set, and result 0 otherwise. With a chip that clears STC it does return: done with -1
  on cancel; after STC was seen, done with -1 if SFBL was set and with 0 if not; and
  while STC is not yet set, not done, after the one read.
\<close>

theorem seek_task_reports_result:
  assumes "task (async r) = Some Seek_async_task" and "state (async r) = 1"
    and "fm_read_registers_up_to r w READCHAN = Return ok r1 w1"
  shows "(fm_seek_async_task r w cancel = Some y \<longrightarrow>
           (\<exists>r' w'. y = Return
              \<lparr>is_done = (cancel \<or> fm_get_bit (regs r1 STATUSRSSI) STC_BIT),
               result = (if cancel \<or> fm_get_bit (regs r1 STATUSRSSI) STC_BIT \<and>
                              fm_get_bit (regs r1 STATUSRSSI) SFBL_BIT then - 1 else 0)\<rparr> r' w')) \<and>
         (stc_clear_after k (trace w @ [stop_write POWERCFG SEEK_BIT r]) w \<longrightarrow>
           (\<exists>r' w'. fm_seek_async_task r w True =
              Some (Return \<lparr>is_done = True, result = - 1\<rparr> r' w'))) \<and>
         (fm_get_bit (regs r1 STATUSRSSI) STC_BIT \<and>
          stc_clear_after k (trace w1 @ [stop_write POWERCFG SEEK_BIT r1]) w1 \<longrightarrow>
           (\<exists>r' w'. fm_seek_async_task r w False =
              Some (Return \<lparr>is_done = True,
                result = (if fm_get_bit (regs r1 STATUSRSSI) SFBL_BIT then - 1 else 0)\<rparr> r' w'))) \<and>
         (\<not> fm_get_bit (regs r1 STATUSRSSI) STC_BIT \<longrightarrow>
           (\<exists>r'. fm_seek_async_task r w False =
              Some (Return \<lparr>is_done = False, result = 0\<rparr> r' w1)))"
proof (intro conjI impI)
  assume y: "fm_seek_async_task r w cancel = Some y"
  show "\<exists>r' w'. y = Return
              \<lparr>is_done = (cancel \<or> fm_get_bit (regs r1 STATUSRSSI) STC_BIT),
               result = (if cancel \<or> fm_get_bit (regs r1 STATUSRSSI) STC_BIT \<and>
                              fm_get_bit (regs r1 STATUSRSSI) SFBL_BIT then - 1 else 0)\<rparr> r' w'"
  proof (cases "cancel \<or> fm_get_bit (regs r1 STATUSRSSI) STC_BIT")
    case False
    with y assms show ?thesis
      by (auto simp: fm_seek_async_task_def Let_def)
  next
    case True
    define res :: int where "res = (if cancel \<or> fm_get_bit (regs r1 STATUSRSSI) SFBL_BIT then - 1 else 0)"
    from True y assms obtain r2 w2 where
      "fm_async_task_finish POWERCFG SEEK_BIT res r2 w2 = Some y"
      by (cases cancel) (auto simp: fm_seek_async_task_def res_def)
    from fm_async_task_finish_post [OF _ _ this] True show ?thesis
      by (auto simp: res_def)
  qed
next
  assume "stc_clear_after k (trace w @ [stop_write POWERCFG SEEK_BIT r]) w"
  from fm_async_task_finish_returns [OF _ _ this, of "- 1"] assms(1,2)
  show "\<exists>r' w'. fm_seek_async_task r w True = Some (Return \<lparr>is_done = True, result = - 1\<rparr> r' w')"
    by (auto simp: fm_seek_async_task_def)
next
  assume a: "fm_get_bit (regs r1 STATUSRSSI) STC_BIT \<and>
          stc_clear_after k (trace w1 @ [stop_write POWERCFG SEEK_BIT r1]) w1"
  then have stc: "fm_get_bit (regs r1 STATUSRSSI) STC_BIT"
    and clr: "stc_clear_after k (trace w1 @ [stop_write POWERCFG SEEK_BIT r1]) w1"
    by simp_all
  from fm_async_task_finish_returns [OF _ _ clr,
      of "if fm_get_bit (regs r1 STATUSRSSI) SFBL_BIT then - 1 else 0"] assms stc
  show "\<exists>r' w'. fm_seek_async_task r w False =
              Some (Return \<lparr>is_done = True,
                result = (if fm_get_bit (regs r1 STATUSRSSI) SFBL_BIT then - 1 else 0)\<rparr> r' w')"
    by (auto simp: fm_seek_async_task_def)
next
  assume "\<not> fm_get_bit (regs r1 STATUSRSSI) STC_BIT"
  with assms show "\<exists>r'. fm_seek_async_task r w False =
              Some (Return \<lparr>is_done = False, result = 0\<rparr> r' w1)"
    by (simp add: fm_seek_async_task_def Let_def)
qed


lemma chip_world_readchan:
  "fm_read_registers_up_to radio_seeking (chip_world [s1, s0, c1, c0]) READCHAN =
     Return True
       (radio_seeking\<lparr>regs := (regs radio_seeking)
          (STATUSRSSI := push_bit 8 (ucast s1) OR ucast s0,
           READCHAN := push_bit 8 (ucast c1) OR ucast c0)\<rparr>)
       (emit (I2C_read SI4703_ADDR 4) (chip_world [s1, s0, c1, c0]))"
  by (simp add: read_readchan_eq chip_world_def Let_def)

lemma chip_world_stc_clear:
  "stc_clear_after k (trace (emit e (chip_world first)) @ tr) (emit e (chip_world first))"
  by (simp add: stc_clear_after_def chip_world_def emit_def fm_get_bit_def)

lemma quiet_world_readchan:
  "fm_read_registers_up_to radio_seeking quiet_world READCHAN =
     Return True
       (radio_seeking\<lparr>regs := (regs radio_seeking)(STATUSRSSI := 0, READCHAN := 0)\<rparr>)
       (emit (I2C_read SI4703_ADDR 4) quiet_world)"
  by (simp add: read_readchan_eq quiet_world_def Let_def)

theorem seek_task_reports_result_witness:
  "task (async radio_seeking) = Some Seek_async_task \<and>
   state (async radio_seeking) = 1 \<and>
   (\<exists>r' w'. fm_seek_async_task radio_seeking (chip_world [0x60, 0x00, 0x00, 0x05]) False =
      Some (Return \<lparr>is_done = True, result = - 1\<rparr> r' w')) \<and>
   (\<exists>r' w'. fm_seek_async_task radio_seeking (chip_world [0x40, 0x00, 0x00, 0x05]) False =
      Some (Return \<lparr>is_done = True, result = 0\<rparr> r' w')) \<and>
   (\<exists>r' w'. fm_seek_async_task radio_seeking quiet_world True =
      Some (Return \<lparr>is_done = True, result = - 1\<rparr> r' w')) \<and>
   (\<exists>r'. fm_seek_async_task radio_seeking quiet_world False =
      Some (Return \<lparr>is_done = False, result = 0\<rparr> r' (emit (I2C_read SI4703_ADDR 4) quiet_world)))"
proof -
  have a: "task (async radio_seeking) = Some Seek_async_task"
    and b: "state (async radio_seeking) = 1"
    by (simp_all add: radio_seeking_def)
  note failed = seek_task_reports_result [OF a b chip_world_readchan [of "0x60" 0 0 5], of _ _ 0,
      THEN conjunct2, THEN conjunct2, THEN conjunct1]
  note found = seek_task_reports_result [OF a b chip_world_readchan [of "0x40" 0 0 5], of _ _ 0,
      THEN conjunct2, THEN conjunct2, THEN conjunct1]
  note cancelled = seek_task_reports_result [OF a b quiet_world_readchan, of _ _ 0,
      THEN conjunct2, THEN conjunct1]
  note seeking = seek_task_reports_result [OF a b quiet_world_readchan, of _ _ 0,
      THEN conjunct2, THEN conjunct2, THEN conjunct2]
  have 1: "\<exists>r' w'. fm_seek_async_task radio_seeking (chip_world [0x60, 0x00, 0x00, 0x05]) False =
      Some (Return \<lparr>is_done = True, result = - 1\<rparr> r' w')"
    using failed chip_world_stc_clear
    by (simp add: fm_get_bit_def STC_BIT_def SFBL_BIT_def)
  have 2: "\<exists>r' w'. fm_seek_async_task radio_seeking (chip_world [0x40, 0x00, 0x00, 0x05]) False =
      Some (Return \<lparr>is_done = True, result = 0\<rparr> r' w')"
    using found chip_world_stc_clear
    by (simp add: fm_get_bit_def STC_BIT_def SFBL_BIT_def)
  have 3: "\<exists>r' w'. fm_seek_async_task radio_seeking quiet_world True =
      Some (Return \<lparr>is_done = True, result = - 1\<rparr> r' w')"
    using cancelled quiet_world_stc_clear by simp
  have 4: "\<exists>r'. fm_seek_async_task radio_seeking quiet_world False =
      Some (Return \<lparr>is_done = False, result = 0\<rparr> r' (emit (I2C_read SI4703_ADDR 4) quiet_world))"
    using seeking by (simp add: fm_get_bit_def)
  from a b 1 2 3 4 show ?thesis by blast
qed


subsection \<open>Powering down\<close>

lemma fm_power_down_chip_eq:
  "fm_power_down_chip r w =
     (let rs1 = (if fm_is_rds_supported r
                 then (regs r)(SYSCONFIG1 := fm_set_bit (regs r SYSCONFIG1) RDS_BIT False)
                 else regs r);
          rs2 = rs1(POWERCFG := fm_set_bit (fm_set_bit (rs1 POWERCFG) DMUTE_BIT False) DISABLE_BIT True)
      in Return ()
           (r\<lparr>regs := rs2(POWERCFG := fm_set_bit (rs2 POWERCFG) ENABLE_BIT False)\<rparr>)
           (w\<lparr>trace := trace w @
                  (if fm_is_rds_supported r then [I2C_write SI4703_ADDR (encode_regs rs1 0x2 3)] else []) @
                  [I2C_write SI4703_ADDR (encode_regs rs2 0x2 1)]\<rparr>))"
  by (simp add: fm_power_down_chip_def fm_write_registers_up_to_eq and_then_def Let_def set_reg_def
      emit_def)


lemma powercfg_bits_after_stop:
  assumes "rs (task_start_reg t) = fm_set_bit (regs r (task_start_reg t)) (task_start_bit t) False"
    and "\<forall>i. i \<noteq> task_start_reg t \<and> i \<noteq> STATUSRSSI \<and> i \<noteq> READCHAN \<longrightarrow> rs i = regs r i"
    and "n \<noteq> 8"
  shows "bit (rs POWERCFG) n = bit (regs r POWERCFG) n"
proof (cases t)
  case Set_frequency_async_task
  with assms(2) show ?thesis by simp
next
  case Seek_async_task
  with assms(1) have "rs POWERCFG = fm_set_bit (regs r POWERCFG) SEEK_BIT False"
    by simp
  with assms(3) show ?thesis
    by (simp add: set_named_bit)
qed

text \<open>The bits of POWERCFG and SYSCONFIG1 that \<^verbatim>\<open>fm_power_down\<close> writes and keeps.\<close>

lemma fm_power_down_chip_post:
  assumes "fm_get_bit (regs r POWERCFG) ENABLE_BIT"
  shows "\<exists>rs1 rs2.
           fm_power_down_chip r w =
             Return () (r\<lparr>regs := rs2(POWERCFG := fm_set_bit (rs2 POWERCFG) ENABLE_BIT False)\<rparr>)
               (w\<lparr>trace := trace w @
                      (if fm_is_rds_supported r
                       then [I2C_write SI4703_ADDR (encode_regs rs1 0x2 3)] else []) @
                      [I2C_write SI4703_ADDR (encode_regs rs2 0x2 1)]\<rparr>) \<and>
           (fm_is_rds_supported r \<longrightarrow> \<not> fm_get_bit (rs1 SYSCONFIG1) RDS_BIT) \<and>
           rs1 POWERCFG = regs r POWERCFG \<and>
           fm_get_bit (rs2 POWERCFG) ENABLE_BIT \<and>
           \<not> fm_get_bit (rs2 POWERCFG) DMUTE_BIT \<and>
           fm_get_bit (rs2 POWERCFG) DISABLE_BIT \<and>
           \<not> fm_get_bit (fm_set_bit (rs2 POWERCFG) ENABLE_BIT False) ENABLE_BIT \<and>
           fm_get_bit (fm_set_bit (rs2 POWERCFG) ENABLE_BIT False) DISABLE_BIT"
proof -
  let ?rs1 = "if fm_is_rds_supported r
              then (regs r)(SYSCONFIG1 := fm_set_bit (regs r SYSCONFIG1) RDS_BIT False)
              else regs r"
  let ?rs2 = "?rs1(POWERCFG := fm_set_bit (fm_set_bit (?rs1 POWERCFG) DMUTE_BIT False) DISABLE_BIT True)"
  have pc: "?rs1 POWERCFG = regs r POWERCFG" by simp
  have rds: "fm_is_rds_supported r \<longrightarrow> \<not> fm_get_bit (?rs1 SYSCONFIG1) RDS_BIT"
    by (simp add: get_named_bit set_named_bit)
  have en: "bit (regs r POWERCFG) 0"
    using assms by (simp add: get_named_bit)
  have pc2: "?rs2 POWERCFG = fm_set_bit (fm_set_bit (regs r POWERCFG) DMUTE_BIT False) DISABLE_BIT True"
    by simp
  have bits: "fm_get_bit (?rs2 POWERCFG) ENABLE_BIT" "\<not> fm_get_bit (?rs2 POWERCFG) DMUTE_BIT"
    "fm_get_bit (?rs2 POWERCFG) DISABLE_BIT"
    "\<not> fm_get_bit (fm_set_bit (?rs2 POWERCFG) ENABLE_BIT False) ENABLE_BIT"
    "fm_get_bit (fm_set_bit (?rs2 POWERCFG) ENABLE_BIT False) DISABLE_BIT"
    unfolding pc2 using en
    by (simp_all add: get_named_bit set_named_bit)
  have "fm_power_down_chip r w =
          Return () (r\<lparr>regs := ?rs2(POWERCFG := fm_set_bit (?rs2 POWERCFG) ENABLE_BIT False)\<rparr>)
            (w\<lparr>trace := trace w @
                   (if fm_is_rds_supported r
                    then [I2C_write SI4703_ADDR (encode_regs ?rs1 0x2 3)] else []) @
                   [I2C_write SI4703_ADDR (encode_regs ?rs2 0x2 1)]\<rparr>)"
    by (simp add: fm_power_down_chip_eq Let_def)
  with rds pc bits show ?thesis
    by (intro exI [of _ ?rs1] exI [of _ ?rs2]) blast
qed


lemma fm_is_rds_supported_cong:
  "regs r' CHIPID = regs r CHIPID \<Longrightarrow> fm_is_rds_supported r' = fm_is_rds_supported r"
  by (simp add: fm_is_rds_supported_def)

text \<open>
  C7. On a powered-up handle, \<^verbatim>\<open>fm_power_down\<close> first cancels a task in flight (the stop
  write, the status reads and the read of the channel; the slot is empty afterwards).
  Then, on a device with RDS, it writes the registers 0x2-0x4 with the RDS bit of
  SYSCONFIG1 cleared, POWERCFG still with its DMUTE and DISABLE bits as they were; after
  that it writes POWERCFG alone with DMUTE cleared, DISABLE set and ENABLE still set.
  Nothing is read afterwards: only the shadow's ENABLE bit is cleared, so
  \<^verbatim>\<open>fm_is_powered_up\<close> is false. The call returns when no task is in flight, or when the
  chip clears STC for the task being cancelled; and whenever it returns, the slot is
  empty and the handle is not powered up.
\<close>

theorem power_down_sequence:
  assumes "fm_is_powered_up r"
    and "task (async r) = None \<or>
         task (async r) = Some t \<and> state (async r) = 1 \<and>
         stc_clear_after k (trace w @ [task_stop_write t r]) w"
  shows "(\<exists>r' w' rs1 rs2 j. j \<le> k \<and> fm_power_down r w = Some (Return () r' w') \<and>
            trace w' = trace w @
              (if task (async r) = None then []
               else [task_stop_write t r] @ status_reads (Suc j) @ [I2C_read SI4703_ADDR 4]) @
              (if fm_is_rds_supported r then [I2C_write SI4703_ADDR (encode_regs rs1 0x2 3)] else []) @
              [I2C_write SI4703_ADDR (encode_regs rs2 0x2 1)] \<and>
            (fm_is_rds_supported r \<longrightarrow> \<not> fm_get_bit (rs1 SYSCONFIG1) RDS_BIT) \<and>
            fm_get_bit (rs1 POWERCFG) DMUTE_BIT = fm_get_bit (regs r POWERCFG) DMUTE_BIT \<and>
            fm_get_bit (rs1 POWERCFG) DISABLE_BIT = fm_get_bit (regs r POWERCFG) DISABLE_BIT \<and>
            fm_get_bit (rs2 POWERCFG) ENABLE_BIT \<and>
            \<not> fm_get_bit (rs2 POWERCFG) DMUTE_BIT \<and>
            fm_get_bit (rs2 POWERCFG) DISABLE_BIT \<and>
            regs r' = rs2(POWERCFG := fm_set_bit (rs2 POWERCFG) ENABLE_BIT False) \<and>
            fm_get_bit (regs r' POWERCFG) DISABLE_BIT \<and>
            task (async r') = None \<and>
            \<not> fm_is_powered_up r') \<and>
         (fm_power_down r0 w0 = Some (Return u r1 w1) \<longrightarrow>
            task (async r1) = None \<and> \<not> fm_is_powered_up r1)"
proof (rule conjI)
  show "fm_power_down r0 w0 = Some (Return u r1 w1) \<longrightarrow>
          task (async r1) = None \<and> \<not> fm_is_powered_up r1"
  proof (rule impI)
  assume ret: "fm_power_down r0 w0 = Some (Return u r1 w1)"
  then have up0: "fm_is_powered_up r0"
    by (auto simp: fm_power_down_def split: if_splits)
  with ret obtain rc wc where chip: "fm_power_down_chip rc wc = Return u r1 w1"
    and idle: "task (async rc) = None"
    and en: "fm_get_bit (regs rc POWERCFG) ENABLE_BIT"
  proof (cases "task (async r0)")
    case None
    with ret up0 have "fm_power_down_chip r0 w0 = Return u r1 w1"
      by (simp add: fm_power_down_def and_then_opt_def)
    with None up0 that show ?thesis
      by (simp add: fm_is_powered_up_def)
  next
    case (Some t0)
    with ret up0 obtain u' rc wc where c: "fm_async_task_cancel r0 w0 = Some (Return u' rc wc)"
      and chip: "fm_power_down_chip rc wc = Return u r1 w1"
      by (auto simp: fm_power_down_def and_then_opt_def split: option.splits outcome.splits)
    from fm_async_task_cancel_post [OF c] Some obtain rs fq where
      rc: "rc = r0\<lparr>frequency := fq, regs := rs, async := async_empty\<rparr>"
      and rs: "rs (task_start_reg t0) = fm_set_bit (regs r0 (task_start_reg t0)) (task_start_bit t0) False"
        "\<forall>i. i \<noteq> task_start_reg t0 \<and> i \<noteq> STATUSRSSI \<and> i \<noteq> READCHAN \<longrightarrow> rs i = regs r0 i"
      by auto
    have "fm_get_bit (regs rc POWERCFG) ENABLE_BIT"
      using up0 powercfg_bits_after_stop [OF rs, of 0]
      by (simp add: rc fm_is_powered_up_def get_named_bit)
    moreover have "task (async rc) = None"
      by (simp add: rc async_empty_def)
    ultimately show ?thesis using chip that by blast
  qed
  from fm_power_down_chip_post [OF en, of wc] chip idle
  show "task (async r1) = None \<and> \<not> fm_is_powered_up r1"
    by (auto simp: fm_is_powered_up_def)
  qed
next
  let ?P = "\<lambda>r' w' rs1 rs2 j. j \<le> k \<and> fm_power_down r w = Some (Return () r' w') \<and>
            trace w' = trace w @
              (if task (async r) = None then []
               else [task_stop_write t r] @ status_reads (Suc j) @ [I2C_read SI4703_ADDR 4]) @
              (if fm_is_rds_supported r then [I2C_write SI4703_ADDR (encode_regs rs1 0x2 3)] else []) @
              [I2C_write SI4703_ADDR (encode_regs rs2 0x2 1)] \<and>
            (fm_is_rds_supported r \<longrightarrow> \<not> fm_get_bit (rs1 SYSCONFIG1) RDS_BIT) \<and>
            fm_get_bit (rs1 POWERCFG) DMUTE_BIT = fm_get_bit (regs r POWERCFG) DMUTE_BIT \<and>
            fm_get_bit (rs1 POWERCFG) DISABLE_BIT = fm_get_bit (regs r POWERCFG) DISABLE_BIT \<and>
            fm_get_bit (rs2 POWERCFG) ENABLE_BIT \<and>
            \<not> fm_get_bit (rs2 POWERCFG) DMUTE_BIT \<and>
            fm_get_bit (rs2 POWERCFG) DISABLE_BIT \<and>
            regs r' = rs2(POWERCFG := fm_set_bit (rs2 POWERCFG) ENABLE_BIT False) \<and>
            fm_get_bit (regs r' POWERCFG) DISABLE_BIT \<and>
            task (async r') = None \<and>
            \<not> fm_is_powered_up r'"
  show "\<exists>r' w' rs1 rs2 j. ?P r' w' rs1 rs2 j"
  proof (cases "task (async r)")
    case None
    from assms(1) have en: "fm_get_bit (regs r POWERCFG) ENABLE_BIT"
      by (simp add: fm_is_powered_up_def)
    from fm_power_down_chip_post [OF en, of w] obtain rs1 rs2 where
      chip: "fm_power_down_chip r w =
             Return () (r\<lparr>regs := rs2(POWERCFG := fm_set_bit (rs2 POWERCFG) ENABLE_BIT False)\<rparr>)
               (w\<lparr>trace := trace w @
                      (if fm_is_rds_supported r
                       then [I2C_write SI4703_ADDR (encode_regs rs1 0x2 3)] else []) @
                      [I2C_write SI4703_ADDR (encode_regs rs2 0x2 1)]\<rparr>)"
      and facts: "fm_is_rds_supported r \<longrightarrow> \<not> fm_get_bit (rs1 SYSCONFIG1) RDS_BIT"
        "rs1 POWERCFG = regs r POWERCFG"
        "fm_get_bit (rs2 POWERCFG) ENABLE_BIT"
        "\<not> fm_get_bit (rs2 POWERCFG) DMUTE_BIT"
        "fm_get_bit (rs2 POWERCFG) DISABLE_BIT"
        "\<not> fm_get_bit (fm_set_bit (rs2 POWERCFG) ENABLE_BIT False) ENABLE_BIT"
        "fm_get_bit (fm_set_bit (rs2 POWERCFG) ENABLE_BIT False) DISABLE_BIT"
      by blast
    have down: "fm_power_down r w = Some (fm_power_down_chip r w)"
      using assms(1) None by (simp add: fm_power_down_def and_then_opt_def)
    have res: "fm_power_down r w =
        Some (Return () (r\<lparr>regs := rs2(POWERCFG := fm_set_bit (rs2 POWERCFG) ENABLE_BIT False)\<rparr>)
            (w\<lparr>trace := trace w @
                      (if fm_is_rds_supported r
                       then [I2C_write SI4703_ADDR (encode_regs rs1 0x2 3)] else []) @
                      [I2C_write SI4703_ADDR (encode_regs rs2 0x2 1)]\<rparr>))"
      by (simp only: down chip)
    have "?P (r\<lparr>regs := rs2(POWERCFG := fm_set_bit (rs2 POWERCFG) ENABLE_BIT False)\<rparr>)
            (w\<lparr>trace := trace w @
                      (if fm_is_rds_supported r
                       then [I2C_write SI4703_ADDR (encode_regs rs1 0x2 3)] else []) @
                      [I2C_write SI4703_ADDR (encode_regs rs2 0x2 1)]\<rparr>) rs1 rs2 0"
      using None facts res by (simp add: fm_is_powered_up_def)
    then show ?thesis by blast
  next
    case (Some t')
    with assms(2) have t: "task (async r) = Some t" and st: "state (async r) = 1"
      and clr: "stc_clear_after k (trace w @ [task_stop_write t r]) w"
      by simp_all
    from fm_async_task_cancel_returns [OF t st clr] obtain rc j where j: "j \<le> k"
      and c: "fm_async_task_cancel r w =
             Some (Return () rc
               (w\<lparr>trace := trace w @ [task_stop_write t r] @ status_reads (Suc j) @
                              [I2C_read SI4703_ADDR 4]\<rparr>))"
      by blast
    let ?wc = "w\<lparr>trace := trace w @ [task_stop_write t r] @ status_reads (Suc j) @
                              [I2C_read SI4703_ADDR 4]\<rparr>"
    from fm_async_task_cancel_post [OF c] t obtain rs fq where
      rc: "rc = r\<lparr>frequency := fq, regs := rs, async := async_empty\<rparr>"
      and rs: "rs (task_start_reg t) = fm_set_bit (regs r (task_start_reg t)) (task_start_bit t) False"
        "\<forall>i. i \<noteq> task_start_reg t \<and> i \<noteq> STATUSRSSI \<and> i \<noteq> READCHAN \<longrightarrow> rs i = regs r i"
      by auto
    note same = powercfg_bits_after_stop [OF rs]
    have en: "fm_get_bit (regs rc POWERCFG) ENABLE_BIT"
      using assms(1) same [of 0] by (simp add: rc fm_is_powered_up_def get_named_bit)
    have chipid: "regs rc CHIPID = regs r CHIPID"
      using rs(2) by (cases t) (simp_all add: rc)
    note rds = fm_is_rds_supported_cong [OF chipid]
    from fm_power_down_chip_post [OF en, of ?wc] obtain rs1 rs2 where
      chip: "fm_power_down_chip rc ?wc =
             Return () (rc\<lparr>regs := rs2(POWERCFG := fm_set_bit (rs2 POWERCFG) ENABLE_BIT False)\<rparr>)
               (?wc\<lparr>trace := trace ?wc @
                      (if fm_is_rds_supported rc
                       then [I2C_write SI4703_ADDR (encode_regs rs1 0x2 3)] else []) @
                      [I2C_write SI4703_ADDR (encode_regs rs2 0x2 1)]\<rparr>)"
      and facts: "fm_is_rds_supported rc \<longrightarrow> \<not> fm_get_bit (rs1 SYSCONFIG1) RDS_BIT"
        "rs1 POWERCFG = regs rc POWERCFG"
        "fm_get_bit (rs2 POWERCFG) ENABLE_BIT"
        "\<not> fm_get_bit (rs2 POWERCFG) DMUTE_BIT"
        "fm_get_bit (rs2 POWERCFG) DISABLE_BIT"
        "\<not> fm_get_bit (fm_set_bit (rs2 POWERCFG) ENABLE_BIT False) ENABLE_BIT"
        "fm_get_bit (fm_set_bit (rs2 POWERCFG) ENABLE_BIT False) DISABLE_BIT"
      by blast
    have bits1: "fm_get_bit (rs1 POWERCFG) DMUTE_BIT = fm_get_bit (regs r POWERCFG) DMUTE_BIT"
      "fm_get_bit (rs1 POWERCFG) DISABLE_BIT = fm_get_bit (regs r POWERCFG) DISABLE_BIT"
      using same [of 14] same [of 6] by (simp_all add: facts(2) rc get_named_bit)
    have down: "fm_power_down r w = Some (fm_power_down_chip rc ?wc)"
      using assms(1) t by (simp add: fm_power_down_def c and_then_opt_def)
    have res: "fm_power_down r w =
        Some (Return () (rc\<lparr>regs := rs2(POWERCFG := fm_set_bit (rs2 POWERCFG) ENABLE_BIT False)\<rparr>)
            (?wc\<lparr>trace := trace ?wc @
                      (if fm_is_rds_supported rc
                       then [I2C_write SI4703_ADDR (encode_regs rs1 0x2 3)] else []) @
                      [I2C_write SI4703_ADDR (encode_regs rs2 0x2 1)]\<rparr>))"
      by (simp only: down chip)
    have idle: "task (async rc) = None"
      by (simp add: rc async_empty_def)
    have "?P (rc\<lparr>regs := rs2(POWERCFG := fm_set_bit (rs2 POWERCFG) ENABLE_BIT False)\<rparr>)
            (?wc\<lparr>trace := trace ?wc @
                      (if fm_is_rds_supported rc
                       then [I2C_write SI4703_ADDR (encode_regs rs1 0x2 3)] else []) @
                      [I2C_write SI4703_ADDR (encode_regs rs2 0x2 1)]\<rparr>) rs1 rs2 j"
      using t j facts bits1 rds res idle
      by (simp add: fm_is_powered_up_def)
    then show ?thesis by blast
  qed
qed


theorem power_down_sequence_witness:
  "fm_is_powered_up radio_si4703_seeking \<and>
   task (async radio_si4703_seeking) = Some Seek_async_task \<and>
   state (async radio_si4703_seeking) = 1 \<and>
   stc_clear_after 0 (trace quiet_world @ [task_stop_write Seek_async_task radio_si4703_seeking])
     quiet_world \<and>
   fm_is_rds_supported radio_si4703_seeking \<and>
   (\<exists>r' w' rs1 rs2.
      fm_power_down radio_si4703_seeking quiet_world = Some (Return () r' w') \<and>
      trace w' =
        [I2C_write SI4703_ADDR [0x42, 0x01], I2C_read SI4703_ADDR 2, I2C_read SI4703_ADDR 4,
         I2C_write SI4703_ADDR (encode_regs rs1 0x2 3), I2C_write SI4703_ADDR (encode_regs rs2 0x2 1)] \<and>
      \<not> fm_get_bit (rs1 SYSCONFIG1) RDS_BIT \<and>
      fm_get_bit (rs1 POWERCFG) DMUTE_BIT \<and>
      \<not> fm_get_bit (rs1 POWERCFG) DISABLE_BIT \<and>
      fm_get_bit (rs2 POWERCFG) ENABLE_BIT \<and>
      \<not> fm_get_bit (rs2 POWERCFG) DMUTE_BIT \<and>
      fm_get_bit (rs2 POWERCFG) DISABLE_BIT \<and>
      regs r' = rs2(POWERCFG := fm_set_bit (rs2 POWERCFG) ENABLE_BIT False) \<and>
      task (async r') = None \<and>
      \<not> fm_is_powered_up r')"
proof -
  have a: "fm_is_powered_up radio_si4703_seeking"
    by (simp add: fm_is_powered_up_def radio_si4703_seeking_def fm_get_bit_def ENABLE_BIT_def)
  have t: "task (async radio_si4703_seeking) = Some Seek_async_task"
    and st: "state (async radio_si4703_seeking) = 1"
    by (simp_all add: radio_si4703_seeking_def)
  have clr: "stc_clear_after 0
      (trace quiet_world @ [task_stop_write Seek_async_task radio_si4703_seeking]) quiet_world"
    by (rule quiet_world_stc_clear)
  have rds: "fm_is_rds_supported radio_si4703_seeking"
    by (simp add: fm_is_rds_supported_def radio_si4703_seeking_def fm_get_bits_def DEV_BITS_def
        DEV_LSB_def DEV_SI4703_def)
  have stop: "task_stop_write Seek_async_task radio_si4703_seeking = I2C_write SI4703_ADDR [0x42, 0x01]"
    by (simp add: task_stop_write_def stop_write_def radio_si4703_seeking_def fm_set_bit_def
        SEEK_BIT_def encode_regs_1)
  have bits: "fm_get_bit (regs radio_si4703_seeking POWERCFG) DMUTE_BIT"
    "\<not> fm_get_bit (regs radio_si4703_seeking POWERCFG) DISABLE_BIT"
    by (simp_all add: radio_si4703_seeking_def fm_get_bit_def power_bits)
  have hyp: "task (async radio_si4703_seeking) = None \<or>
      task (async radio_si4703_seeking) = Some Seek_async_task \<and>
      state (async radio_si4703_seeking) = 1 \<and>
      stc_clear_after 0
        (trace quiet_world @ [task_stop_write Seek_async_task radio_si4703_seeking]) quiet_world"
    using t st clr by blast
  from power_down_sequence [OF a hyp, THEN conjunct1]
  obtain r' w' rs1 rs2 j where "j \<le> 0"
    "fm_power_down radio_si4703_seeking quiet_world = Some (Return () r' w')"
    "trace w' = trace quiet_world @
       (if task (async radio_si4703_seeking) = None then []
        else [task_stop_write Seek_async_task radio_si4703_seeking] @ status_reads (Suc j) @
             [I2C_read SI4703_ADDR 4]) @
       (if fm_is_rds_supported radio_si4703_seeking
        then [I2C_write SI4703_ADDR (encode_regs rs1 0x2 3)] else []) @
       [I2C_write SI4703_ADDR (encode_regs rs2 0x2 1)]"
    "fm_is_rds_supported radio_si4703_seeking \<longrightarrow> \<not> fm_get_bit (rs1 SYSCONFIG1) RDS_BIT"
    "fm_get_bit (rs1 POWERCFG) DMUTE_BIT = fm_get_bit (regs radio_si4703_seeking POWERCFG) DMUTE_BIT"
    "fm_get_bit (rs1 POWERCFG) DISABLE_BIT = fm_get_bit (regs radio_si4703_seeking POWERCFG) DISABLE_BIT"
    "fm_get_bit (rs2 POWERCFG) ENABLE_BIT"
    "\<not> fm_get_bit (rs2 POWERCFG) DMUTE_BIT"
    "fm_get_bit (rs2 POWERCFG) DISABLE_BIT"
    "regs r' = rs2(POWERCFG := fm_set_bit (rs2 POWERCFG) ENABLE_BIT False)"
    "task (async r') = None"
    "\<not> fm_is_powered_up r'"
    by blast
  then have "fm_power_down radio_si4703_seeking quiet_world = Some (Return () r' w') \<and>
      trace w' =
        [I2C_write SI4703_ADDR [0x42, 0x01], I2C_read SI4703_ADDR 2, I2C_read SI4703_ADDR 4,
         I2C_write SI4703_ADDR (encode_regs rs1 0x2 3), I2C_write SI4703_ADDR (encode_regs rs2 0x2 1)] \<and>
      \<not> fm_get_bit (rs1 SYSCONFIG1) RDS_BIT \<and>
      fm_get_bit (rs1 POWERCFG) DMUTE_BIT \<and>
      \<not> fm_get_bit (rs1 POWERCFG) DISABLE_BIT \<and>
      fm_get_bit (rs2 POWERCFG) ENABLE_BIT \<and>
      \<not> fm_get_bit (rs2 POWERCFG) DMUTE_BIT \<and>
      fm_get_bit (rs2 POWERCFG) DISABLE_BIT \<and>
      regs r' = rs2(POWERCFG := fm_set_bit (rs2 POWERCFG) ENABLE_BIT False) \<and>
      task (async r') = None \<and>
      \<not> fm_is_powered_up r'"
    using t rds bits by (simp add: stop status_reads_def quiet_world_def)
  then have "\<exists>r' w' rs1 rs2.
      fm_power_down radio_si4703_seeking quiet_world = Some (Return () r' w') \<and>
      trace w' =
        [I2C_write SI4703_ADDR [0x42, 0x01], I2C_read SI4703_ADDR 2, I2C_read SI4703_ADDR 4,
         I2C_write SI4703_ADDR (encode_regs rs1 0x2 3), I2C_write SI4703_ADDR (encode_regs rs2 0x2 1)] \<and>
      \<not> fm_get_bit (rs1 SYSCONFIG1) RDS_BIT \<and>
      fm_get_bit (rs1 POWERCFG) DMUTE_BIT \<and>
      \<not> fm_get_bit (rs1 POWERCFG) DISABLE_BIT \<and>
      fm_get_bit (rs2 POWERCFG) ENABLE_BIT \<and>
      \<not> fm_get_bit (rs2 POWERCFG) DMUTE_BIT \<and>
      fm_get_bit (rs2 POWERCFG) DISABLE_BIT \<and>
      regs r' = rs2(POWERCFG := fm_set_bit (rs2 POWERCFG) ENABLE_BIT False) \<and>
      task (async r') = None \<and>
      \<not> fm_is_powered_up r'"
    by blast
  with a t st clr rds show ?thesis by blast
qed


subsection \<open>Rounding to single precision\<close>

lemma quantum_search_bounds:
  "0 < q \<Longrightarrow>
   q \<le> quantum_search n q x \<and> (quantum_search n q x = q \<or> 8388608 * quantum_search n q x \<le> x)"
proof (induction n arbitrary: q)
  case 0
  then show ?case by simp
next
  case (Suc n)
  show ?case
  proof (cases "x < 16777216 * q")
    case True
    then show ?thesis by simp
  next
    case False
    from Suc.prems have "0 < 2 * q" by simp
    from Suc.IH [OF this] False Suc.prems show ?thesis by auto
  qed
qed

lemma quantum_search_eq:
  "0 < q \<Longrightarrow> j \<le> n \<Longrightarrow> x < 16777216 * (2 ^ j * q) \<Longrightarrow>
   j = 0 \<or> 8388608 * (2 ^ j * q) \<le> x \<Longrightarrow>
   quantum_search n q x = 2 ^ j * q"
proof (induction n arbitrary: q j)
  case 0
  then show ?case by simp
next
  case (Suc n)
  show ?case
  proof (cases j)
    case 0
    with Suc.prems show ?thesis by simp
  next
    case (Suc j')
    with Suc.prems have big: "16777216 * (2 ^ j' * q) \<le> x" by simp
    have "2 ^ j' * q \<ge> q" using Suc.prems(1)
      by (simp add: mult_le_cancel_right1)
    with big have "\<not> x < 16777216 * q" by simp
    moreover have "quantum_search n (2 * q) x = 2 ^ j' * (2 * q)"
    proof (rule Suc.IH)
      show "0 < 2 * q" using Suc.prems(1) by simp
      show "j' \<le> n" using Suc.prems(2) Suc by simp
      show "x < 16777216 * (2 ^ j' * (2 * q))" using Suc.prems(3) Suc by (simp add: mult.assoc mult.left_commute)
      show "j' = 0 \<or> 8388608 * (2 ^ j' * (2 * q)) \<le> x" using big by simp
    qed
    ultimately show ?thesis using Suc by simp
  qed
qed

lemma quantum_pos: "0 < quantum x"
proof -
  have pos: "(0::rat) < 1 / 2 ^ 149" by simp
  from quantum_search_bounds [OF this, of 253 "\<bar>x\<bar>"]
  have "1 / 2 ^ 149 \<le> quantum x"
    unfolding quantum_def by simp
  with pos show ?thesis by (rule less_le_trans)
qed

lemma quantum_le: "quantum x \<le> max (1 / 2 ^ 149) (\<bar>x\<bar> / 8388608)"
proof -
  have "(0::rat) < 1 / 2 ^ 149" by simp
  from quantum_search_bounds [OF this, of 253 "\<bar>x\<bar>"] show ?thesis
    unfolding quantum_def by auto
qed

text \<open>The spacing of the binary32 values around \<open>x\<close>, when \<open>x\<close> lies in a known binade.\<close>

lemma quantum_eq:
  assumes "8388608 * (2 ^ j / 2 ^ 149) \<le> \<bar>x\<bar>" and "\<bar>x\<bar> < 16777216 * (2 ^ j / 2 ^ 149)" and "j \<le> 253"
  shows "quantum x = 2 ^ j / 2 ^ 149"
proof -
  have "quantum_search 253 (1 / 2 ^ 149) \<bar>x\<bar> = 2 ^ j * (1 / 2 ^ 149)"
    using assms by (intro quantum_search_eq) simp_all
  then show ?thesis by (simp add: quantum_def)
qed

lemma round_half_even_error: "\<bar>of_int (round_half_even y) - y\<bar> \<le> 1 / 2"
proof -
  define n where "n = \<lfloor>y\<rfloor>"
  define d where "d = y - of_int n"
  have d: "0 \<le> d" "d < 1" unfolding d_def n_def by linarith+
  have y: "y = of_int n + d" unfolding d_def by simp
  have "round_half_even y = (if d < 1 / 2 then n else if 1 / 2 < d then n + 1
                              else if even n then n else n + 1)"
    unfolding round_half_even_def Let_def n_def [symmetric] d_def [symmetric] ..
  with d show ?thesis
    unfolding y by (auto simp: abs_if)
qed

lemma floor_rat_numeral [simp]: "\<lfloor>numeral a / numeral b :: rat\<rfloor> = numeral a div numeral b"
  by (metis floor_divide_of_int_eq of_int_numeral)

lemma round_half_even_nonneg: "0 \<le> y \<Longrightarrow> 0 \<le> round_half_even y"
  unfolding round_half_even_def Let_def by (auto simp: abs_if)

lemma rnd32_error_quantum: "\<bar>rnd32 x - x\<bar> \<le> quantum x / 2"
proof -
  let ?q = "quantum x"
  have q: "0 < ?q" by (rule quantum_pos)
  have "rnd32 x - x = (of_int (round_half_even (x / ?q)) - x / ?q) * ?q"
    using q by (simp add: rnd32_def algebra_simps)
  then have "\<bar>rnd32 x - x\<bar> = \<bar>of_int (round_half_even (x / ?q)) - x / ?q\<bar> * ?q"
    using q by (simp add: abs_mult)
  also have "\<dots> \<le> 1 / 2 * ?q"
    using round_half_even_error [of "x / ?q"] q by (intro mult_right_mono) simp_all
  finally show ?thesis by simp
qed

text \<open>
  The rounding error of one operation whose exact result has magnitude at most \<open>B\<close>
  (and \<open>B\<close> is at least the smallest normal number): at most \<open>B / 2 ^ 24\<close>.
\<close>

lemma rnd32_error:
  assumes "\<bar>x\<bar> \<le> B" and "1 / 2 ^ 126 \<le> B"
  shows "\<bar>rnd32 x - x\<bar> \<le> B / 16777216"
proof -
  have "quantum x \<le> max (1 / 2 ^ 149) (\<bar>x\<bar> / 8388608)" by (rule quantum_le)
  also have "\<dots> \<le> B / 8388608"
    using assms by auto
  finally have "quantum x / 2 \<le> B / 16777216" by simp
  with rnd32_error_quantum [of x] show ?thesis by linarith
qed

lemma rnd32_nonneg: "0 \<le> x \<Longrightarrow> 0 \<le> rnd32 x"
  using quantum_pos [of x] round_half_even_nonneg [of "x / quantum x"]
  by (simp add: rnd32_def)

lemma rnd32_eval:
  assumes "8388608 * (2 ^ j / 2 ^ 149) \<le> \<bar>x\<bar>" and "\<bar>x\<bar> < 16777216 * (2 ^ j / 2 ^ 149)" and "j \<le> 253"
  shows "rnd32 x = of_int (round_half_even (x / (2 ^ j / 2 ^ 149))) * (2 ^ j / 2 ^ 149)"
  by (simp only: rnd32_def quantum_eq [OF assms])

lemma spacing_200: "rnd32 (2 / 10) = 13421773 / 67108864"
  by (subst rnd32_eval [of 123]) (simp_all add: round_half_even_def Let_def)

lemma spacing_100: "rnd32 (1 / 10) = 13421773 / 134217728"
  by (subst rnd32_eval [of 122]) (simp_all add: round_half_even_def Let_def)

lemma spacing_50: "rnd32 (5 / 100) = 13421773 / 268435456"
  by (subst rnd32_eval [of 121]) (simp_all add: round_half_even_def Let_def)


subsection \<open>A frequency that does not come back within half a spacing\<close>

lemma europe_range:
  "fm_frequency_range FM_BAND_COMMON FM_CHANNEL_SPACING_100 =
     \<lparr>bottom = 175 / 2, top_r = 108, spacing = 13421773 / 134217728\<rparr>"
  by (simp add: fm_frequency_range_def spacing_100)

lemma europe_channel_of_87_75:
  "fm_frequency_to_channel (351 / 4) (fm_frequency_range FM_BAND_COMMON FM_CHANNEL_SPACING_100) = Some 3"
proof -
  have 1: "fsub (351 / 4) (175 / 2) = 1 / 4"
    unfolding fsub_def
    by (subst rnd32_eval [of 124]) (simp_all add: round_half_even_def Let_def)
  have 2: "fdiv (1 / 4) (13421773 / 134217728) = 5 / 2"
    unfolding fdiv_def
    by (subst rnd32_eval [of 127]) (simp_all add: round_half_even_def Let_def)
  have 3: "roundf (5 / 2) = 3"
    by (simp add: roundf_def)
  show ?thesis
    by (simp add: fm_frequency_to_channel_def europe_range 1 2 3 float_to_u16_def)
qed

lemma europe_frequency_of_3:
  "fm_channel_to_frequency 3 (fm_frequency_range FM_BAND_COMMON FM_CHANNEL_SPACING_100) =
     5754061 / 65536"
proof -
  have 1: "fmul 3 (13421773 / 134217728) = 5033165 / 16777216"
    unfolding fmul_def
    by (subst rnd32_eval [of 124]) (simp_all add: round_half_even_def Let_def)
  have 2: "fadd (5033165 / 16777216) (175 / 2) = 5754061 / 65536"
    unfolding fadd_def
    by (subst rnd32_eval [of 132]) (simp_all add: round_half_even_def Let_def)
  show ?thesis
    by (simp add: fm_channel_to_frequency_def europe_range u16_to_float_def 1 2)
qed

text \<open>
  C9 as stated asks that a frequency converted to a channel and back comes within one half
  of the channel spacing of where it started. With the European configuration (87.5-108 MHz,
  100 kHz) the frequency 87.75 MHz, which a \<^verbatim>\<open>float\<close> holds exactly, lies midway between
  the channels 2 and 3: \<^verbatim>\<open>roundf\<close> takes it to channel 3, and channel 3 comes back as
  \<open>5754061 / 65536\<close> MHz, further than half of the spacing \<^verbatim>\<open>0.1f\<close> from 87.75 MHz.
\<close>

theorem round_trip_exceeds_half_spacing:
  "bottom (fm_frequency_range FM_BAND_COMMON FM_CHANNEL_SPACING_100) \<le> 351 / 4 \<and>
   351 / 4 \<le> top_r (fm_frequency_range FM_BAND_COMMON FM_CHANNEL_SPACING_100) \<and>
   fm_frequency_to_channel (351 / 4) (fm_frequency_range FM_BAND_COMMON FM_CHANNEL_SPACING_100) = Some 3 \<and>
   fm_channel_to_frequency 3 (fm_frequency_range FM_BAND_COMMON FM_CHANNEL_SPACING_100) =
     5754061 / 65536 \<and>
   spacing (fm_frequency_range FM_BAND_COMMON FM_CHANNEL_SPACING_100) / 2 <
     \<bar>fm_channel_to_frequency 3 (fm_frequency_range FM_BAND_COMMON FM_CHANNEL_SPACING_100) - 351 / 4\<bar>"
  by (simp add: europe_channel_of_87_75 europe_frequency_of_3) (simp add: europe_range)


subsection \<open>The round trip within half a spacing and a rounding tolerance\<close>

lemma roundf_nonneg:
  assumes "0 \<le> t"
  shows "roundf t = of_int \<lfloor>t + 1 / 2\<rfloor>" and "0 \<le> \<lfloor>t + 1 / 2\<rfloor>"
    and "\<bar>roundf t - t\<bar> \<le> 1 / 2"
proof -
  show r: "roundf t = of_int \<lfloor>t + 1 / 2\<rfloor>"
    using assms by (simp add: roundf_def)
  show "0 \<le> \<lfloor>t + 1 / 2\<rfloor>"
    using assms by simp
  have "of_int \<lfloor>t + 1 / 2\<rfloor> \<le> t + 1 / 2" "t + 1 / 2 < of_int \<lfloor>t + 1 / 2\<rfloor> + 1"
    by linarith+
  then show "\<bar>roundf t - t\<bar> \<le> 1 / 2"
    unfolding r by linarith
qed

lemma round_trip_error:
  fixes b s f :: rat
  assumes s: "1 / 20 \<le> s" "s \<le> 201 / 1000"
    and b: "0 \<le> b" "b \<le> 108"
    and f: "b \<le> f" "f - b \<le> 32"
  defines "n \<equiv> roundf (fdiv (fsub f b) s)"
  shows "n = of_int \<lfloor>fdiv (fsub f b) s + 1 / 2\<rfloor>"
    and "0 \<le> \<lfloor>fdiv (fsub f b) s + 1 / 2\<rfloor>"
    and "\<lfloor>fdiv (fsub f b) s + 1 / 2\<rfloor> \<le> 641"
    and "\<bar>n - (f - b) / s\<bar> \<le> 1 / 2 + 1 / 10000"
    and "\<bar>fadd (fmul n s) b - f\<bar> \<le> s / 2 + 1 / 10000"
proof -
  define x1 where "x1 = f - b"
  define d where "d = rnd32 x1"
  define x2 where "x2 = d / s"
  define t where "t = rnd32 x2"
  define p where "p = rnd32 (n * s)"
  define g where "g = rnd32 (p + b)"
  have spos: "0 < s" using s(1) by simp
  have x1: "0 \<le> x1" "x1 \<le> 32" using f by (simp_all add: x1_def)
  have e1: "\<bar>d - x1\<bar> \<le> 32 / 16777216"
    unfolding d_def using x1 by (intro rnd32_error) simp_all
  have d0: "0 \<le> d" unfolding d_def using x1(1) by (rule rnd32_nonneg)
  have d33: "d \<le> 32 + 32 / 16777216" using e1 x1 by linarith
  have sx2: "s * x2 = d" using spos by (simp add: x2_def)
  have x2_0: "0 \<le> x2" unfolding x2_def using d0 spos by simp
  have x2_le: "x2 \<le> 641"
  proof -
    have "d \<le> 641 * s" using d33 s(1) by linarith
    then show ?thesis unfolding x2_def using spos by (simp add: divide_le_eq)
  qed
  have e2: "\<bar>t - x2\<bar> \<le> 641 / 16777216"
    unfolding t_def using x2_0 x2_le by (intro rnd32_error) simp_all
  have t0: "0 \<le> t" unfolding t_def using x2_0 by (rule rnd32_nonneg)
  have t_eq: "t = fdiv (fsub f b) s"
    by (simp add: t_def x2_def d_def x1_def fdiv_def fsub_def)
  have n_eq: "n = of_int \<lfloor>t + 1 / 2\<rfloor>" and fl0: "0 \<le> \<lfloor>t + 1 / 2\<rfloor>"
    and e3: "\<bar>n - t\<bar> \<le> 1 / 2"
    using roundf_nonneg [OF t0] by (simp_all add: n_def t_eq)
  have n0: "0 \<le> n" using n_eq fl0 by simp
  have n_le: "n \<le> 641 + 641 / 16777216 + 1 / 2" using e2 e3 x2_le by linarith
  have fl_le: "\<lfloor>t + 1 / 2\<rfloor> \<le> 641"
  proof -
    have "n < 642" using n_le by linarith
    then have "(of_int \<lfloor>t + 1 / 2\<rfloor> :: rat) < of_int 642" unfolding n_eq by simp
    then have "\<lfloor>t + 1 / 2\<rfloor> < 642" by (simp only: of_int_less_iff)
    then show ?thesis by simp
  qed
  show "n = of_int \<lfloor>fdiv (fsub f b) s + 1 / 2\<rfloor>" using n_eq by (simp add: t_eq)
  show "0 \<le> \<lfloor>fdiv (fsub f b) s + 1 / 2\<rfloor>" using fl0 by (simp add: t_eq)
  show "\<lfloor>fdiv (fsub f b) s + 1 / 2\<rfloor> \<le> 641" using fl_le by (simp add: t_eq)
  have st: "\<bar>s * (t - x2)\<bar> \<le> 201 / 1000 * (641 / 16777216)"
  proof -
    have "\<bar>s * (t - x2)\<bar> = s * \<bar>t - x2\<bar>" using spos by (simp add: abs_mult)
    also have "\<dots> \<le> 201 / 1000 * (641 / 16777216)"
      using s(2) e2 spos by (intro mult_mono) simp_all
    finally show ?thesis .
  qed
  have sn: "\<bar>s * (n - t)\<bar> \<le> s / 2"
  proof -
    have "\<bar>s * (n - t)\<bar> = s * \<bar>n - t\<bar>" using spos by (simp add: abs_mult)
    also have "\<dots> \<le> s * (1 / 2)"
      using e3 spos by (intro mult_left_mono) simp_all
    finally show ?thesis by simp
  qed
  have ns_split: "n * s - x1 = s * (n - t) + s * (t - x2) + (d - x1)"
    using sx2 by (simp add: algebra_simps)
  have ns_close: "\<bar>n * s - x1\<bar> \<le> s / 2 + 201 / 1000 * (641 / 16777216) + 32 / 16777216"
    unfolding ns_split using sn st e1 by linarith
  have ns_le: "\<bar>n * s\<bar> \<le> 33"
    using ns_close x1 s(2) by linarith
  have e4: "\<bar>p - n * s\<bar> \<le> 33 / 16777216"
    unfolding p_def using ns_le by (intro rnd32_error) simp_all
  have pb_le: "\<bar>p + b\<bar> \<le> 142"
    using e4 ns_le b by linarith
  have e5: "\<bar>g - (p + b)\<bar> \<le> 142 / 16777216"
    unfolding g_def using pb_le by (intro rnd32_error) simp_all
  have g_eq: "g = fadd (fmul n s) b"
    by (simp add: g_def p_def fadd_def fmul_def)
  have "\<bar>g - f\<bar> \<le> s / 2 + 1 / 10000"
  proof -
    have "g - f = (g - (p + b)) + (p - n * s) + (n * s - x1)"
      by (simp add: x1_def)
    with e5 e4 ns_close show ?thesis by linarith
  qed
  then show "\<bar>fadd (fmul n s) b - f\<bar> \<le> s / 2 + 1 / 10000"
    by (simp add: g_eq)
  show "\<bar>n - (f - b) / s\<bar> \<le> 1 / 2 + 1 / 10000"
  proof -
    have "\<bar>x2 - x1 / s\<bar> = \<bar>d - x1\<bar> / s"
      using spos by (simp add: x2_def diff_divide_distrib [symmetric] abs_divide)
    also have "\<dots> \<le> (32 / 16777216) / (1 / 20)"
      using e1 s(1) by (intro frac_le) simp_all
    finally have "\<bar>x2 - x1 / s\<bar> \<le> 640 / 16777216" by simp
    with e2 e3 have "\<bar>n - x1 / s\<bar> \<le> 1 / 2 + 1 / 10000" by linarith
    then show ?thesis by (simp add: x1_def)
  qed
qed


lemma u16_of_small_int:
  assumes "0 \<le> N" "N \<le> 65535"
  shows "float_to_u16 (of_int N) = Some (word_of_int N)"
    and "u16_to_float (word_of_int N) = of_int N"
proof -
  show "float_to_u16 (of_int N) = Some (word_of_int N)"
    using assms by (simp add: float_to_u16_def)
  have "uint (word_of_int N :: u16) = N"
    using assms by (simp add: uint_word_of_int take_bit_eq_mod)
  then have "unat (word_of_int N :: u16) = nat N"
    by (simp add: unat_eq_nat_uint)
  then show "u16_to_float (word_of_int N) = of_int N"
    using assms by (simp add: u16_to_float_def)
qed

lemma spacing_cases:
  "spacing (fm_frequency_range b cs) =
     (case cs of FM_CHANNEL_SPACING_200 \<Rightarrow> 13421773 / 67108864
      | FM_CHANNEL_SPACING_100 \<Rightarrow> 13421773 / 134217728
      | FM_CHANNEL_SPACING_50 \<Rightarrow> 13421773 / 268435456)"
  by (simp only: fm_frequency_range_def fm_frequency_range_t.simps spacing_200 spacing_100 spacing_50)

lemma spacing_bounds:
  "1 / 20 \<le> spacing (fm_frequency_range b cs)"
  "spacing (fm_frequency_range b cs) \<le> 201 / 1000"
  unfolding spacing_cases by (cases cs; simp)+

lemma band_bounds:
  "0 \<le> bottom (fm_frequency_range b cs)"
  "bottom (fm_frequency_range b cs) \<le> 108"
  "top_r (fm_frequency_range b cs) - bottom (fm_frequency_range b cs) \<le> 32"
  unfolding fm_frequency_range_def fm_frequency_range_t.simps by (cases b; simp)+

lemma channel_to_frequency_error:
  fixes b s :: rat
  assumes c: "unat c \<le> 1023"
    and s: "1 / 20 \<le> s" "s \<le> 201 / 1000"
    and b: "0 \<le> b" "b \<le> 108"
  shows "\<bar>fadd (fmul (u16_to_float c) s) b - (of_nat (unat c) * s + b)\<bar> \<le> 1 / 10000"
proof -
  define n :: rat where "n = of_nat (unat c)"
  define p where "p = rnd32 (n * s)"
  have n: "0 \<le> n" "n \<le> 1023"
  proof -
    show "0 \<le> n"
      unfolding n_def by (rule of_nat_0_le_iff)
    have "(of_nat (unat c) :: rat) \<le> of_nat 1023"
      using c by (simp only: of_nat_le_iff)
    then show "n \<le> 1023"
      by (simp add: n_def)
  qed
  have "n * s \<le> 1023 * (201 / 1000)"
    using n s by (intro mult_mono) simp_all
  moreover have "0 \<le> n * s"
    using n s by simp
  ultimately have ns: "\<bar>n * s\<bar> \<le> 206"
    by simp
  have e1: "\<bar>p - n * s\<bar> \<le> 206 / 16777216"
    unfolding p_def using ns by (intro rnd32_error) simp_all
  have "\<bar>p + b\<bar> \<le> 315"
    using e1 ns b by linarith
  then have e2: "\<bar>rnd32 (p + b) - (p + b)\<bar> \<le> 315 / 16777216"
    by (intro rnd32_error) simp_all
  have "\<bar>rnd32 (p + b) - (n * s + b)\<bar> \<le> 1 / 10000"
    using e1 e2 by linarith
  then show ?thesis
    by (simp add: fadd_def fmul_def u16_to_float_def p_def n_def)
qed

text \<open>
  C9 (amended). With \<^verbatim>\<open>float\<close> arithmetic every operation of the two conversions is rounded,
  so the sentences hold up to a rounding tolerance, here \<open>1 / 10000\<close> (of a channel, or of a
  MHz). For every band, every channel spacing and the range \<open>rng\<close> derived from them:
  \<^item> \<open>fm_channel_to_frequency c rng\<close> is within \<open>1 / 10000\<close> of
    \<open>c * spacing + bottom\<close>, for every channel \<open>c\<close> of the 10-bit channel field;
  \<^item> for every frequency \<open>f\<close> between \<open>bottom\<close> and \<open>top\<close>, \<open>fm_frequency_to_channel f rng\<close>
    is defined, its channel \<open>ch\<close> is an integer within \<open>1 / 2 + 1 / 10000\<close> of
    \<open>(f - bottom) / spacing\<close>, at most 641, and
  \<^item> \<open>fm_channel_to_frequency ch rng\<close> is within \<open>spacing / 2 + 1 / 10000\<close> of \<open>f\<close>.
\<close>

theorem frequency_channel_round_trip:
  fixes f :: float and b :: fm_band_t and cs :: fm_channel_spacing_t
  defines "rng \<equiv> fm_frequency_range b cs"
  assumes c: "unat c \<le> 1023"
    and f: "bottom rng \<le> f" "f \<le> top_r rng"
  shows "\<bar>fm_channel_to_frequency c rng - (of_nat (unat c) * spacing rng + bottom rng)\<bar> \<le> 1 / 10000 \<and>
    (\<exists>ch. fm_frequency_to_channel f rng = Some ch \<and> unat ch \<le> 641 \<and>
       \<bar>of_nat (unat ch) - (f - bottom rng) / spacing rng\<bar> \<le> 1 / 2 + 1 / 10000 \<and>
       \<bar>fm_channel_to_frequency ch rng - f\<bar> \<le> spacing rng / 2 + 1 / 10000)"
proof (rule conjI)
  note s = spacing_bounds [of b cs, folded rng_def]
  note bb = band_bounds [of b cs, folded rng_def]
  show "\<bar>fm_channel_to_frequency c rng - (of_nat (unat c) * spacing rng + bottom rng)\<bar> \<le> 1 / 10000"
    unfolding fm_channel_to_frequency_def
    using c s bb(1,2) by (rule channel_to_frequency_error)
  define N where "N = \<lfloor>fdiv (fsub f (bottom rng)) (spacing rng) + 1 / 2\<rfloor>"
  have fb: "f - bottom rng \<le> 32"
    using f(2) bb(3) by linarith
  note rt = round_trip_error [OF s bb(1,2) f(1) fb, folded N_def]
  have N: "0 \<le> N" "N \<le> 65535" "N \<le> 641"
    using rt(2,3) by simp_all
  note u = u16_of_small_int [OF N(1,2)]
  have ch: "fm_frequency_to_channel f rng = Some (word_of_int N)"
    by (simp add: fm_frequency_to_channel_def rt(1) u(1))
  have un: "(of_nat (unat (word_of_int N :: u16)) :: rat) = of_int N"
    using u(2) by (simp add: u16_to_float_def)
  have "unat (word_of_int N :: u16) \<le> 641"
  proof -
    have "(of_nat (unat (word_of_int N :: u16)) :: rat) \<le> of_nat 641"
      unfolding un using N(3) by simp
    then show ?thesis by (simp only: of_nat_le_iff)
  qed
  moreover have "\<bar>of_nat (unat (word_of_int N :: u16)) - (f - bottom rng) / spacing rng\<bar> \<le> 1 / 2 + 1 / 10000"
    unfolding un using rt(4) by (simp add: rt(1))
  moreover have "\<bar>fm_channel_to_frequency (word_of_int N) rng - f\<bar> \<le> spacing rng / 2 + 1 / 10000"
    unfolding fm_channel_to_frequency_def u(2) using rt(5) by (simp add: rt(1))
  ultimately show "\<exists>ch. fm_frequency_to_channel f rng = Some ch \<and> unat ch \<le> 641 \<and>
       \<bar>of_nat (unat ch) - (f - bottom rng) / spacing rng\<bar> \<le> 1 / 2 + 1 / 10000 \<and>
       \<bar>fm_channel_to_frequency ch rng - f\<bar> \<le> spacing rng / 2 + 1 / 10000"
    using ch by blast
qed

theorem frequency_channel_round_trip_witness:
  "unat (3 :: u16) \<le> 1023 \<and>
   bottom (fm_frequency_range FM_BAND_COMMON FM_CHANNEL_SPACING_100) \<le> 351 / 4 \<and>
   351 / 4 \<le> top_r (fm_frequency_range FM_BAND_COMMON FM_CHANNEL_SPACING_100) \<and>
   \<bar>fm_channel_to_frequency 3 (fm_frequency_range FM_BAND_COMMON FM_CHANNEL_SPACING_100) - 351 / 4\<bar>
     \<le> spacing (fm_frequency_range FM_BAND_COMMON FM_CHANNEL_SPACING_100) / 2 + 1 / 10000"
  using frequency_channel_round_trip
    [where c = 3 and b = FM_BAND_COMMON and cs = FM_CHANNEL_SPACING_100 and f = "351 / 4"]
  by (simp add: europe_channel_of_87_75) (simp add: europe_range)

end
